theory Spec2Isabelle
  imports Main
begin

section \<open>Data model of package env\<close>

text \<open>
  The package orchestrates user-supplied Go functions. Those functions are effectful, so
  every one of them is a transformer of an abstract world \<open>'w\<close> (everything they can touch
  besides the values handed to them: counters, clusters, files). A theorem that says a
  function "does not run" says that the world is the one left by the calls before it.

  \<open>context.Context\<close> is an interface type of the Go library. \<open>Background\<close> is
  \<open>context.Background()\<close>, \<open>WithValue v\<close> any other non-nil context carrying \<open>v\<close>;
  the nil interface value is \<open>None\<close> of \<open>'c Context option\<close>.
\<close>

datatype 'c Context = Background | WithValue 'c

text \<open>Go's \<open>error\<close>: a nil error is \<open>None\<close>, any other one is its message (\<open>%v\<close>).\<close>

type_synonym error = string

text \<open>
  Modelled from the spec: \<open>envconf.Config\<close>, whose declaration is not among the sources.
  The engine reads two optional regular-expression filters from it (feature name,
  assessment name) and nothing else. A compiled \<open>*regexp.Regexp\<close> is taken as what
  \<open>MatchString\<close> computes; a nil pattern is \<open>None\<close>. The environment holds a pointer
  \<open>*envconf.Config\<close>, which may be nil: \<open>Config option\<close>.
\<close>

type_synonym Regexp = "string \<Rightarrow> bool"

record Config =
  FeatureRegex :: "Regexp option"
  AssessmentRegex :: "Regexp option"

text \<open>
  \<open>types.EnvFunc = func(context.Context, *envconf.Config) (context.Context, error)\<close>,
  aliased as \<open>Func\<close> in this package.
\<close>

type_synonym ('w, 'c) Func =
  "'w \<Rightarrow> 'c Context option \<Rightarrow> Config option \<Rightarrow> 'w \<times> 'c Context option \<times> error option"

text \<open>
  Modelled from the spec: the constants of \<open>actionRole\<close> (a \<open>uint8\<close> in the source) are
  declared in a file that is not among the sources; the spec names them as an enumeration
  of four distinct roles.
\<close>

datatype actionRole = roleSetup | roleBefore | roleAfter | roleFinish

text \<open>The struct \<open>action{role, funcs}\<close>, as the composite literals of the source build it.\<close>

record ('w, 'c) action =
  role :: actionRole
  funcs :: "('w, 'c) Func list"

text \<open>
  The struct \<open>testEnv\<close>. A Go slice is a list; in this package a slice is empty exactly
  when it is nil (\<open>actions\<close> starts nil and only ever grows by \<open>append\<close>), so \<open>[]\<close>
  stands for both.
\<close>

record ('w, 'c) testEnv =
  ctx :: "'c Context option"
  cfg :: "Config option"
  actions :: "('w, 'c) action list"

text \<open>How a call can end, besides returning: the cases the source itself produces.\<close>

datatype 'a outcome =
    Returns 'a
  | Goexit          \<comment> \<open>\<open>t.Fatalf\<close>: the calling test function stops\<close>
  | Panic string    \<comment> \<open>\<open>panic(..)\<close> or a run-time panic\<close>
  | OsExit int      \<comment> \<open>\<open>log.Fatal\<close>: the process exits with status 1\<close>

section \<open>Constructors\<close>

text \<open>
  \<open>envconf.New()\<close> is not among the sources: the configuration it returns is the
  parameter \<open>conf\<close> of \<open>newTestEnv\<close>, \<open>New\<close> and \<open>NewWithConfig\<close>.
\<close>

definition newTestEnv :: "Config \<Rightarrow> ('w, 'c) testEnv" where
  "newTestEnv conf = \<lparr>ctx = Some Background, cfg = Some conf, actions = []\<rparr>"

definition New :: "Config \<Rightarrow> ('w, 'c) testEnv" where
  "New conf = newTestEnv conf"

definition NewWithConfig :: "Config \<Rightarrow> Config option \<Rightarrow> ('w, 'c) testEnv" where
  "NewWithConfig conf k = (let env = newTestEnv conf in env\<lparr>cfg := k\<rparr>)"

definition NewWithContext ::
  "'c Context option \<Rightarrow> Config option \<Rightarrow> error + ('w, 'c) testEnv" where
  "NewWithContext c k =
     (if c = None then Inl ''context is nil''
      else if k = None then Inl ''environment config is nil''
      else Inr \<lparr>ctx = c, cfg = k, actions = []\<rparr>)"

text \<open>
  \<open>WithContext\<close> has a pointer receiver and returns a pointer to a newly allocated
  \<open>testEnv\<close>. The model returns both objects: the receiver as the call leaves it, and the
  new environment. \<open>append(env.actions, e.actions...)\<close> appends to the nil slice of the
  new object, so the elements are copied into storage of its own.
\<close>

definition WithContext ::
  "('w, 'c) testEnv \<Rightarrow> 'c Context option \<Rightarrow> (('w, 'c) testEnv \<times> ('w, 'c) testEnv) outcome" where
  "WithContext e c =
     (if c = None then Panic ''nil context''
      else (let env = \<lparr>ctx = c, cfg = cfg e, actions = []\<rparr>;
                env = env\<lparr>actions := actions env @ actions e\<rparr>
            in Returns (e, env)))"

section \<open>Registration and retrieval\<close>

text \<open>
  The four registration methods mutate the receiver and return it: the model returns the
  receiver's state after the call.
\<close>

definition Setup :: "('w, 'c) testEnv \<Rightarrow> ('w, 'c) Func list \<Rightarrow> ('w, 'c) testEnv" where
  "Setup e fs =
     (if length fs = 0 then e
      else e\<lparr>actions := actions e @ [\<lparr>role = roleSetup, funcs = fs\<rparr>]\<rparr>)"

definition BeforeTest :: "('w, 'c) testEnv \<Rightarrow> ('w, 'c) Func list \<Rightarrow> ('w, 'c) testEnv" where
  "BeforeTest e fs =
     (if length fs = 0 then e
      else e\<lparr>actions := actions e @ [\<lparr>role = roleBefore, funcs = fs\<rparr>]\<rparr>)"

definition AfterTest :: "('w, 'c) testEnv \<Rightarrow> ('w, 'c) Func list \<Rightarrow> ('w, 'c) testEnv" where
  "AfterTest e fs =
     (if length fs = 0 then e
      else e\<lparr>actions := actions e @ [\<lparr>role = roleAfter, funcs = fs\<rparr>]\<rparr>)"

definition Finish :: "('w, 'c) testEnv \<Rightarrow> ('w, 'c) Func list \<Rightarrow> ('w, 'c) testEnv" where
  "Finish e fs =
     (if length fs = 0 then e
      else e\<lparr>actions := actions e @ [\<lparr>role = roleFinish, funcs = fs\<rparr>]\<rparr>)"

text \<open>The loop of \<open>getActionsByRole\<close>: \<open>result\<close> is the slice built so far.\<close>

fun collectRole ::
  "actionRole \<Rightarrow> ('w, 'c) action list \<Rightarrow> ('w, 'c) action list \<Rightarrow> ('w, 'c) action list" where
  "collectRole r [] result = result"
| "collectRole r (a # rest) result =
     collectRole r rest (if role a = r then result @ [a] else result)"

definition getActionsByRole :: "('w, 'c) testEnv \<Rightarrow> actionRole \<Rightarrow> ('w, 'c) action list" where
  "getActionsByRole e r = (if actions e = [] then [] else collectRole r (actions e) [])"

definition GetSetupActions :: "('w, 'c) testEnv \<Rightarrow> ('w, 'c) action list" where
  "GetSetupActions e = getActionsByRole e roleSetup"

definition GetBeforeActions :: "('w, 'c) testEnv \<Rightarrow> ('w, 'c) action list" where
  "GetBeforeActions e = getActionsByRole e roleBefore"

definition GetAfterActions :: "('w, 'c) testEnv \<Rightarrow> ('w, 'c) action list" where
  "GetAfterActions e = getActionsByRole e roleAfter"

definition GetFinishActions :: "('w, 'c) testEnv \<Rightarrow> ('w, 'c) action list" where
  "GetFinishActions e = getActionsByRole e roleFinish"

section \<open>Running an action\<close>

text \<open>
  Modelled from the spec: the method \<open>run\<close> of \<open>action\<close>, whose source is not among the
  files (section 4.2). It executes the functions of the action in order, the context
  returned by one being the input of the next; at the first function that signals failure
  it returns that error together with the last successfully produced context, and runs
  none of the remaining functions.
\<close>

fun runFuncs ::
  "('w, 'c) Func list \<Rightarrow> 'w \<Rightarrow> 'c Context option \<Rightarrow> Config option
     \<Rightarrow> 'w \<times> 'c Context option \<times> error option" where
  "runFuncs [] w c k = (w, c, None)"
| "runFuncs (f # fs) w c k =
     (case f w c k of
        (w', c', Some err) \<Rightarrow> (w', c, Some err)
      | (w', c', None) \<Rightarrow> runFuncs fs w' c' k)"

definition run ::
  "('w, 'c) action \<Rightarrow> 'w \<Rightarrow> 'c Context option \<Rightarrow> Config option
     \<Rightarrow> 'w \<times> 'c Context option \<times> error option" where
  "run a w c k = runFuncs (funcs a) w c k"

section \<open>The suite: Run\<close>

text \<open>
  The three loops of the source that stop at the first error
  (\<open>if e.ctx, err = action.run(e.ctx, e.cfg); err != nil { fatal }\<close>): \<open>e.ctx\<close> is
  assigned before the error is looked at, and the fatal call (\<open>log.Fatal\<close> in \<open>Run\<close>,
  \<open>t.Fatalf\<close> in \<open>Test\<close>) does not return, so the loop ends there. The result carries the
  error for the caller, who makes the fatal call.
\<close>

fun failFastLoop ::
  "('w, 'c) action list \<Rightarrow> 'w \<Rightarrow> ('w, 'c) testEnv \<Rightarrow> 'w \<times> ('w, 'c) testEnv \<times> error option" where
  "failFastLoop [] w e = (w, e, None)"
| "failFastLoop (a # rest) w e =
     (case run a w (ctx e) (cfg e) of
        (w', c', Some err) \<Rightarrow> (w', e\<lparr>ctx := c'\<rparr>, Some err)
      | (w', c', None) \<Rightarrow> failFastLoop rest w' (e\<lparr>ctx := c'\<rparr>))"

text \<open>
  The loop over the Finish actions: an error is printed (\<open>log.Println\<close>) and the loop
  goes on. The third component is what was printed, in order.
\<close>

fun finishLoop ::
  "('w, 'c) action list \<Rightarrow> 'w \<Rightarrow> ('w, 'c) testEnv \<Rightarrow> 'w \<times> ('w, 'c) testEnv \<times> error list" where
  "finishLoop [] w e = (w, e, [])"
| "finishLoop (fin # rest) w e =
     (case run fin w (ctx e) (cfg e) of
        (w', c', err) \<Rightarrow>
          (case finishLoop rest w' (e\<lparr>ctx := c'\<rparr>) of
             (w'', e'', printed) \<Rightarrow>
               (w'', e'', (case err of Some x \<Rightarrow> [x] | None \<Rightarrow> []) @ printed)))"

text \<open>
  \<open>m.Run()\<close> is the test runner of Go's library. It executes the test functions of the
  package, which work on the world and call methods of this environment (\<open>e.Test\<close>
  assigns \<open>e.ctx\<close>), and returns the exit code: a function
  \<open>'w \<Rightarrow> testEnv \<Rightarrow> 'w \<times> testEnv \<times> int\<close>.

  \<open>Run e m w\<close> gives the world and the environment as the call leaves them, the lines
  written to the log, and how the call ended.
\<close>

type_synonym ('w, 'c) testingM =
  "'w \<Rightarrow> ('w, 'c) testEnv \<Rightarrow> 'w \<times> ('w, 'c) testEnv \<times> int"

definition Run ::
  "('w, 'c) testEnv \<Rightarrow> ('w, 'c) testingM \<Rightarrow> 'w
     \<Rightarrow> 'w \<times> ('w, 'c) testEnv \<times> error list \<times> int outcome" where
  "Run e m w =
     (if ctx e = None then (w, e, [], Panic ''context not set'')
      else
        (case failFastLoop (GetSetupActions e) w e of
           (w1, e1, Some err) \<Rightarrow> (w1, e1, [err], OsExit 1)
         | (w1, e1, None) \<Rightarrow>
             (case m w1 e1 of
                (w2, e2, exitCode) \<Rightarrow>
                  (case finishLoop (GetFinishActions e2) w2 e2 of
                     (w3, e3, printed) \<Rightarrow> (w3, e3, printed, Returns exitCode)))))"

section \<open>Features and their steps\<close>

text \<open>
  \<open>*testing.T\<close> is the reporting handle of Go's library. A handle is identified by the
  path of scope names below it (what \<open>t.Name()\<close> joins with slashes); \<open>t.Run name body\<close>
  opens the sub-scope \<open>t @ [name]\<close>, runs \<open>body\<close> in it to its end, and returns. The body
  ends when it returns or when it stops its own scope (\<open>t.Skipf\<close>, \<open>t.Fatalf\<close>: both end
  the goroutine of that scope through \<open>runtime.Goexit\<close>); in both cases \<open>t.Run\<close> returns
  to the enclosing scope, which goes on. This is the boundary the specification draws
  (a named nested sub-scope whose body runs synchronously); what the library does besides
  (selecting sub-scopes with \<open>-run\<close>, rewriting names for display, \<open>t.Parallel\<close>) is
  outside the model.

  The calls the source itself makes on a handle are recorded as events.
\<close>

type_synonym testingT = "string list"

datatype event =
    Enter testingT          \<comment> \<open>\<open>t.Run\<close> opens this sub-scope\<close>
  | Leave testingT          \<comment> \<open>the sub-scope is over, \<open>t.Run\<close> returns\<close>
  | Skipf testingT string   \<comment> \<open>\<open>t.Skipf\<close> on this handle, with its message\<close>
  | Fatalf testingT string  \<comment> \<open>\<open>t.Fatalf\<close> on this handle, with its message\<close>

text \<open>
  \<open>types.StepFunc = func(context.Context, *testing.T, *envconf.Config) context.Context\<close>.
  A step function holds the handle of its scope: besides returning a context (\<open>Done\<close>)
  it may stop that scope (\<open>Stopped\<close>: \<open>t.FailNow\<close>, \<open>t.Fatal\<close>, \<open>t.SkipNow\<close>), which is
  how a step signals failure. What it reports on the handle is part of its effect on the
  world.
\<close>

datatype 'a stepResult = Done 'a | Stopped

type_synonym ('w, 'c) StepFunc =
  "'w \<Rightarrow> 'c Context option \<Rightarrow> testingT \<Rightarrow> Config option \<Rightarrow> 'w \<times> 'c Context option stepResult"

text \<open>
  Modelled from the spec: \<open>types.Level\<close>, \<open>types.Step\<close> (a level, a name, a function) and
  \<open>types.Feature\<close> (a name and an ordered sequence of steps) are interfaces declared
  outside the sources; the fields are the results of their methods \<open>Level()\<close>, \<open>Name()\<close>,
  \<open>Func()\<close> and \<open>Name()\<close>, \<open>Steps()\<close>.
\<close>

datatype Level = LevelSetup | LevelAssess | LevelTeardown

record ('w, 'c) Step =
  stepLevel :: Level
  stepName :: string
  stepFunc :: "('w, 'c) StepFunc"

record ('w, 'c) Feature =
  featureName :: string
  featureSteps :: "('w, 'c) Step list"

text \<open>
  Modelled from the spec: \<open>features.GetStepsByLevel\<close>, whose source is not among the
  files. A feature's steps are partitioned by level, and within a level they keep the
  order they have in the feature's step list.
\<close>

definition GetStepsByLevel :: "('w, 'c) Step list \<Rightarrow> Level \<Rightarrow> ('w, 'c) Step list" where
  "GetStepsByLevel ss l = filter (\<lambda>s. stepLevel s = l) ss"

section \<open>Executing a feature\<close>

text \<open>The condition \<open>re != nil && !re.MatchString(name)\<close> of both filters.\<close>

definition notMatched :: "Regexp option \<Rightarrow> string \<Rightarrow> bool" where
  "notMatched re n = (case re of None \<Rightarrow> False | Some r \<Rightarrow> \<not> r n)"

definition skipFeatureMsg :: "string \<Rightarrow> string" where
  "skipFeatureMsg n = ''Skipping feature '' @ [CHR 0x22] @ n @ [CHR 0x22] @ '': name not matched''"

definition skipAssessmentMsg :: "string \<Rightarrow> string" where
  "skipAssessmentMsg n =
     ''Skipping assessment '' @ [CHR 0x22] @ n @ [CHR 0x22] @ '': name not matched''"

text \<open>
  The loops over the Setup-level and over the Teardown-level steps, which run in the
  feature's scope \<open>t\<close>: \<open>ctx = step.Func()(ctx, t, e.cfg)\<close>. The boolean tells whether the
  loop came to its end; it is \<open>False\<close> when a step stopped the scope, and then the
  variable \<open>ctx\<close> keeps the value it had before that step.
\<close>

fun stepLoop ::
  "('w, 'c) Step list \<Rightarrow> testingT \<Rightarrow> Config option \<Rightarrow> 'w \<Rightarrow> 'c Context option
     \<Rightarrow> 'w \<times> 'c Context option \<times> bool" where
  "stepLoop [] t k w c = (w, c, True)"
| "stepLoop (s # rest) t k w c =
     (case stepFunc s w c t k of
        (w', Done c') \<Rightarrow> stepLoop rest t k w' c'
      | (w', Stopped) \<Rightarrow> (w', c, False))"

text \<open>
  The loop over the Assess-level steps: each one is the body of a \<open>t.Run\<close> under its own
  name. The body skips its scope when the assessment filter does not match the name, and
  otherwise assigns the result of the step to the variable \<open>ctx\<close> of \<open>execFeature\<close>. A
  body that is skipped, or whose step stops the scope, leaves \<open>ctx\<close> as it was, and the
  loop goes on with the next assessment. \<open>conf\<close> is the configuration \<open>e.cfg\<close> points to.
\<close>

fun assessLoop ::
  "('w, 'c) Step list \<Rightarrow> testingT \<Rightarrow> Config \<Rightarrow> 'w \<Rightarrow> 'c Context option
     \<Rightarrow> 'w \<times> 'c Context option \<times> event list" where
  "assessLoop [] t conf w c = (w, c, [])"
| "assessLoop (assess # rest) t conf w c =
     (let t' = t @ [stepName assess] in
      (case (if notMatched (AssessmentRegex conf) (stepName assess)
             then (w, c, [Skipf t' (skipAssessmentMsg (stepName assess))])
             else (case stepFunc assess w c t' (Some conf) of
                     (w', Done c') \<Rightarrow> (w', c', [])
                   | (w', Stopped) \<Rightarrow> (w', c, []))) of
         (w1, c1, evs) \<Rightarrow>
           (case assessLoop rest t conf w1 c1 of
              (w2, c2, evs') \<Rightarrow> (w2, c2, [Enter t'] @ evs @ [Leave t'] @ evs'))))"

text \<open>
  \<open>execFeature e c t f w\<close>: the world after the call, the events on the handles, and how
  the call ended. The accessor \<open>e.cfg.FeatureRegex()\<close> reads a field through the pointer
  \<open>e.cfg\<close>: with a nil pointer that is a run-time panic, inside the feature's scope.
\<close>

definition execFeature ::
  "('w, 'c) testEnv \<Rightarrow> 'c Context option \<Rightarrow> testingT \<Rightarrow> ('w, 'c) Feature \<Rightarrow> 'w
     \<Rightarrow> 'w \<times> event list \<times> 'c Context option outcome" where
  "execFeature e c t f w =
     (let featName = featureName f; t' = t @ [featName] in
      (case cfg e of
         None \<Rightarrow> (w, [Enter t'], Panic ''nil pointer dereference'')
       | Some conf \<Rightarrow>
           if notMatched (FeatureRegex conf) featName
           then (w, [Enter t', Skipf t' (skipFeatureMsg featName), Leave t'], Returns c)
           else
             (case stepLoop (GetStepsByLevel (featureSteps f) LevelSetup) t' (cfg e) w c of
                (w1, c1, False) \<Rightarrow> (w1, [Enter t', Leave t'], Returns c1)
              | (w1, c1, True) \<Rightarrow>
                  (case assessLoop (GetStepsByLevel (featureSteps f) LevelAssess) t' conf w1 c1 of
                     (w2, c2, evs) \<Rightarrow>
                       (case stepLoop (GetStepsByLevel (featureSteps f) LevelTeardown)
                               t' (cfg e) w2 c2 of
                          (w3, c3, _) \<Rightarrow> (w3, [Enter t'] @ evs @ [Leave t'], Returns c3))))))"

section \<open>Testing a feature: Test\<close>

definition beforeFailureMsg :: "string \<Rightarrow> error \<Rightarrow> string" where
  "beforeFailureMsg n err = ''BeforeTest failure: '' @ n @ '': '' @ err"

definition afterFailureMsg :: "string \<Rightarrow> error \<Rightarrow> string" where
  "afterFailureMsg n err = ''AfterTest failure: '' @ n @ '': '' @ err"

text \<open>
  \<open>Test e t feature w\<close>: the world and the environment as the call leaves them, the events
  on the handles, and how the call ended. \<open>t.Fatalf\<close> stops the test function that called
  \<open>Test\<close>, so nothing after it is executed.
\<close>

definition Test ::
  "('w, 'c) testEnv \<Rightarrow> testingT \<Rightarrow> ('w, 'c) Feature \<Rightarrow> 'w
     \<Rightarrow> 'w \<times> ('w, 'c) testEnv \<times> event list \<times> unit outcome" where
  "Test e t feature w =
     (if ctx e = None then (w, e, [], Panic ''context not set'')
      else
        (case failFastLoop (GetBeforeActions e) w e of
           (w1, e1, Some err) \<Rightarrow>
             (w1, e1, [Fatalf t (beforeFailureMsg (featureName feature) err)], Goexit)
         | (w1, e1, None) \<Rightarrow>
             (case execFeature e1 (ctx e1) t feature w1 of
                (w2, evs, Returns c2) \<Rightarrow>
                  (let e2 = e1\<lparr>ctx := c2\<rparr> in
                   (case failFastLoop (GetAfterActions e2) w2 e2 of
                      (w3, e3, Some err) \<Rightarrow>
                        (w3, e3, evs @ [Fatalf t (afterFailureMsg (featureName feature) err)],
                         Goexit)
                    | (w3, e3, None) \<Rightarrow> (w3, e3, evs, Returns ())))
              | (w2, evs, Goexit) \<Rightarrow> (w2, e1, evs, Goexit)
              | (w2, evs, Panic msg) \<Rightarrow> (w2, e1, evs, Panic msg)
              | (w2, evs, OsExit n) \<Rightarrow> (w2, e1, evs, OsExit n))))"

section \<open>The specification's notions\<close>

text \<open>
  The definitions of this section follow the words of the specification, not the source;
  the theorems compare them with the source's functions above.

  "Executes the actions in order, the context threaded from each action to the next":
  \<open>threadActions\<close> gives the world and the context after a batch in which every action
  succeeded, and \<open>None\<close> when one of them returned an error.
\<close>

fun threadActions ::
  "('w, 'c) action list \<Rightarrow> Config option \<Rightarrow> 'w \<times> 'c Context option
     \<Rightarrow> ('w \<times> 'c Context option) option" where
  "threadActions [] k (w, c) = Some (w, c)"
| "threadActions (a # rest) k (w, c) =
     (case run a w c k of
        (w', c', None) \<Rightarrow> threadActions rest k (w', c')
      | (w', c', Some err) \<Rightarrow> None)"

text \<open>
  "Best effort": every action of the batch is executed in order, each on the world and
  the context the one before it left, whether or not that one returned an error.
\<close>

definition bestEffort ::
  "('w, 'c) action list \<Rightarrow> Config option \<Rightarrow> 'w \<times> 'c Context option
     \<Rightarrow> 'w \<times> 'c Context option" where
  "bestEffort as k st =
     foldl (\<lambda>(w, c) a. (case run a w c k of (w', c', err) \<Rightarrow> (w', c'))) st as"

text \<open>
  "All Setup-level steps, then all Assess-level steps (each in a nested sub-scope of its
  own name), then all Teardown-level steps, within each level in the order of the
  feature's step list": the steps of a feature paired with the handle each one runs
  under, \<open>t\<close> being the handle of the feature's scope. \<open>excluded\<close> tells which assessment
  names a filter leaves out.
\<close>

definition levelPlan ::
  "(string \<Rightarrow> bool) \<Rightarrow> testingT \<Rightarrow> ('w, 'c) Step list \<Rightarrow> (testingT \<times> ('w, 'c) Step) list" where
  "levelPlan excluded t ss =
     map (\<lambda>s. (t, s)) (filter (\<lambda>s. stepLevel s = LevelSetup) ss) @
     map (\<lambda>s. (t @ [stepName s], s))
       (filter (\<lambda>s. stepLevel s = LevelAssess \<and> \<not> excluded (stepName s)) ss) @
     map (\<lambda>s. (t, s)) (filter (\<lambda>s. stepLevel s = LevelTeardown) ss)"

text \<open>
  "Each threading context": the steps of a plan executed in order, each on the world and
  the context the one before it produced; \<open>None\<close> when a step stops its scope instead
  of returning.
\<close>

fun threadSteps ::
  "(testingT \<times> ('w, 'c) Step) list \<Rightarrow> Config option \<Rightarrow> 'w \<times> 'c Context option
     \<Rightarrow> ('w \<times> 'c Context option) option" where
  "threadSteps [] k (w, c) = Some (w, c)"
| "threadSteps ((t, s) # rest) k (w, c) =
     (case stepFunc s w c t k of
        (w', Done c') \<Rightarrow> threadSteps rest k (w', c')
      | (w', Stopped) \<Rightarrow> None)"

text \<open>
  The events of the sub-scope of one assessment: opened under its name, marked skipped
  when the filter leaves the name out, closed.
\<close>

definition assessScope :: "(string \<Rightarrow> bool) \<Rightarrow> testingT \<Rightarrow> ('w, 'c) Step \<Rightarrow> event list" where
  "assessScope excluded t s =
     [Enter (t @ [stepName s])] @
     (if excluded (stepName s)
      then [Skipf (t @ [stepName s]) (skipAssessmentMsg (stepName s))] else []) @
     [Leave (t @ [stepName s])]"

text \<open>
  "Run directly, sequentially, each threading context": one Setup-level or
  Teardown-level step, executed under the handle \<open>t\<close> of the feature's scope on the world
  and the context the steps before it left. The flag tells whether the scope is still
  running: a step that stops the scope instead of returning leaves the context as it
  was, and no later step of the scope is executed.
\<close>

definition levelStep ::
  "testingT \<Rightarrow> Config option \<Rightarrow> 'w \<times> 'c Context option \<times> bool \<Rightarrow> ('w, 'c) Step
     \<Rightarrow> 'w \<times> 'c Context option \<times> bool" where
  "levelStep t k st s =
     (case st of
        (w, c, live) \<Rightarrow>
          if live
          then (case stepFunc s w c t k of
                  (w', Done c') \<Rightarrow> (w', c', True)
                | (w', Stopped) \<Rightarrow> (w', c, False))
          else (w, c, False))"

text \<open>
  "Each as its own nested reporting sub-scope, independently named and independently
  skippable": one Assess-level step. When the filter leaves its name out it is not
  executed; otherwise it is executed under the handle of the sub-scope of its name. A
  step that stops its sub-scope leaves the context as it was. In every case the
  enclosing scope goes on.
\<close>

definition assessStep ::
  "(string \<Rightarrow> bool) \<Rightarrow> testingT \<Rightarrow> Config option \<Rightarrow> 'w \<times> 'c Context option \<Rightarrow> ('w, 'c) Step
     \<Rightarrow> 'w \<times> 'c Context option" where
  "assessStep excluded t k st s =
     (case st of
        (w, c) \<Rightarrow>
          if excluded (stepName s) then (w, c)
          else (case stepFunc s w c (t @ [stepName s]) k of
                  (w', Done c') \<Rightarrow> (w', c')
                | (w', Stopped) \<Rightarrow> (w', c)))"

text \<open>
  "Executes, in this fixed order, all Setup-level steps, then all Assess-level steps,
  then all Teardown-level steps; the context produced by the last step of a level is the
  input to the first step of the next level", for a feature that is executed under the
  handle \<open>t\<close> of its scope, \<open>ss\<close> being its step list: the world after the feature, the
  events, and the context returned.
\<close>

definition levelsInOrder ::
  "(string \<Rightarrow> bool) \<Rightarrow> testingT \<Rightarrow> Config option \<Rightarrow> ('w, 'c) Step list \<Rightarrow> 'w
     \<Rightarrow> 'c Context option \<Rightarrow> 'w \<times> event list \<times> 'c Context option outcome" where
  "levelsInOrder excluded t k ss w c =
     (case foldl (levelStep t k) (w, c, True) (filter (\<lambda>s. stepLevel s = LevelSetup) ss) of
        (w1, c1, live) \<Rightarrow>
          if live
          then (case foldl (assessStep excluded t k) (w1, c1)
                       (filter (\<lambda>s. stepLevel s = LevelAssess) ss) of
                  (w2, c2) \<Rightarrow>
                    (case foldl (levelStep t k) (w2, c2, True)
                            (filter (\<lambda>s. stepLevel s = LevelTeardown) ss) of
                       (w3, c3, live') \<Rightarrow>
                         (w3,
                          [Enter t] @
                          concat (map (assessScope excluded t)
                                    (filter (\<lambda>s. stepLevel s = LevelAssess) ss)) @
                          [Leave t],
                          Returns c3)))
          else (w1, [Enter t, Leave t], Returns c1))"


text \<open>
  The environments one obtains through the constructors, \<open>WithContext\<close> and the four
  registration methods.
\<close>

inductive obtainable :: "('w, 'c) testEnv \<Rightarrow> bool" where
  byNew: "obtainable (New conf)"
| byNewWithConfig: "obtainable (NewWithConfig conf k)"
| byNewWithContext: "NewWithContext c k = Inr e \<Longrightarrow> obtainable e"
| byWithContext: "obtainable e \<Longrightarrow> WithContext e c = Returns (e', env) \<Longrightarrow> obtainable env"
| bySetup: "obtainable e \<Longrightarrow> obtainable (Setup e fs)"
| byBeforeTest: "obtainable e \<Longrightarrow> obtainable (BeforeTest e fs)"
| byAfterTest: "obtainable e \<Longrightarrow> obtainable (AfterTest e fs)"
| byFinish: "obtainable e \<Longrightarrow> obtainable (Finish e fs)"

section \<open>Concrete inputs\<close>

text \<open>
  The world is a counter and every function adds to it, so the counter tells which
  functions were executed: \<open>tick\<close> adds 1 and succeeds, \<open>broken\<close> adds 10 and returns an
  error, the test suite adds 100 and exits with code 3.
\<close>

definition plainConf :: Config where
  "plainConf = \<lparr>FeatureRegex = None, AssessmentRegex = None\<rparr>"

definition tick :: "(nat, nat) Func" where
  "tick w c k = (w + 1, c, None)"

definition broken :: "(nat, nat) Func" where
  "broken w c k = (w + 10, c, Some ''boom'')"

definition suite :: "(nat, nat) testingM" where
  "suite w e = (w + 100, e, 3)"

definition envBrokenSetup :: "(nat, nat) testEnv" where
  "envBrokenSetup = Finish (Setup (Setup (Setup (New plainConf) [tick]) [broken]) [tick]) [tick]"

definition envBrokenFinish :: "(nat, nat) testEnv" where
  "envBrokenFinish = Finish (Finish (Setup (New plainConf) [tick]) [broken]) [tick]"

definition envBrokenBefore :: "(nat, nat) testEnv" where
  "envBrokenBefore =
     AfterTest (BeforeTest (BeforeTest (BeforeTest (New plainConf) [tick]) [broken]) [tick]) [tick]"

definition envBrokenAfter :: "(nat, nat) testEnv" where
  "envBrokenAfter =
     AfterTest (AfterTest (AfterTest (BeforeTest (New plainConf) [tick]) [tick]) [broken]) [tick]"

definition envPlain :: "(nat, nat) testEnv" where
  "envPlain = New plainConf"

text \<open>
  Step functions: each adds 1 to the counter; \<open>stepTick\<close> returns the context it was
  given, \<open>stepMark\<close> returns a context that carries the counter it found, \<open>stepStop\<close>
  stops its scope, as \<open>t.Fatal\<close> does. \<open>featureF\<close> has one step of each level. In
  \<open>featureStopping\<close> the Setup-level step stops the scope, in \<open>featureStoppingTeardown\<close>
  the first of two Teardown-level steps does. \<open>featureMixed\<close> has three assessments: one
  named \<open>check\<close>, one that stops its scope and one that returns.
\<close>

definition stepTick :: "(nat, nat) StepFunc" where
  "stepTick w c t k = (w + 1, Done c)"

definition stepStop :: "(nat, nat) StepFunc" where
  "stepStop w c t k = (w + 1, Stopped)"

definition stepMark :: "(nat, nat) StepFunc" where
  "stepMark w c t k = (w + 1, Done (Some (WithValue w)))"

definition checkStep :: "(nat, nat) Step" where
  "checkStep = \<lparr>stepLevel = LevelAssess, stepName = ''check'', stepFunc = stepTick\<rparr>"

definition otherStep :: "(nat, nat) Step" where
  "otherStep = \<lparr>stepLevel = LevelAssess, stepName = ''other'', stepFunc = stepTick\<rparr>"

definition featureF :: "(nat, nat) Feature" where
  "featureF = \<lparr>featureName = ''F'', featureSteps =
     [\<lparr>stepLevel = LevelSetup, stepName = ''prepare'', stepFunc = stepTick\<rparr>,
      \<lparr>stepLevel = LevelAssess, stepName = ''check'', stepFunc = stepTick\<rparr>,
      \<lparr>stepLevel = LevelTeardown, stepName = ''clean'', stepFunc = stepTick\<rparr>]\<rparr>"

definition featureStopping :: "(nat, nat) Feature" where
  "featureStopping = \<lparr>featureName = ''F'', featureSteps =
     [\<lparr>stepLevel = LevelSetup, stepName = ''prepare'', stepFunc = stepStop\<rparr>,
      \<lparr>stepLevel = LevelAssess, stepName = ''check'', stepFunc = stepTick\<rparr>,
      \<lparr>stepLevel = LevelTeardown, stepName = ''clean'', stepFunc = stepTick\<rparr>]\<rparr>"

definition featureStoppingTeardown :: "(nat, nat) Feature" where
  "featureStoppingTeardown = \<lparr>featureName = ''F'', featureSteps =
     [\<lparr>stepLevel = LevelSetup, stepName = ''prepare'', stepFunc = stepTick\<rparr>,
      \<lparr>stepLevel = LevelAssess, stepName = ''check'', stepFunc = stepTick\<rparr>,
      \<lparr>stepLevel = LevelTeardown, stepName = ''release'', stepFunc = stepStop\<rparr>,
      \<lparr>stepLevel = LevelTeardown, stepName = ''clean'', stepFunc = stepTick\<rparr>]\<rparr>"

definition featureMixed :: "(nat, nat) Feature" where
  "featureMixed = \<lparr>featureName = ''F'', featureSteps =
     [\<lparr>stepLevel = LevelSetup, stepName = ''prepare'', stepFunc = stepMark\<rparr>,
      \<lparr>stepLevel = LevelAssess, stepName = ''check'', stepFunc = stepMark\<rparr>,
      \<lparr>stepLevel = LevelAssess, stepName = ''other'', stepFunc = stepStop\<rparr>,
      \<lparr>stepLevel = LevelAssess, stepName = ''other'', stepFunc = stepMark\<rparr>,
      \<lparr>stepLevel = LevelTeardown, stepName = ''clean'', stepFunc = stepTick\<rparr>]\<rparr>"

text \<open>
  Configurations with filters. A pattern is given by the names it matches: the feature
  patterns match \<open>G\<close> only (in \<open>assessConf\<close>: \<open>F\<close> only), the assessment patterns match
  \<open>other\<close> only. \<open>envNoConf\<close> is \<open>NewWithConfig(nil)\<close>.
\<close>

definition filterConf :: Config where
  "filterConf = \<lparr>FeatureRegex = Some (\<lambda>n. n = ''G''), AssessmentRegex = Some (\<lambda>n. n = ''other'')\<rparr>"

definition assessConf :: Config where
  "assessConf = \<lparr>FeatureRegex = Some (\<lambda>n. n = ''F''), AssessmentRegex = Some (\<lambda>n. n = ''other'')\<rparr>"

definition featureOnlyConf :: Config where
  "featureOnlyConf = \<lparr>FeatureRegex = Some (\<lambda>n. n = ''G''), AssessmentRegex = None\<rparr>"

definition envFiltered :: "(nat, nat) testEnv" where
  "envFiltered = AfterTest (BeforeTest (NewWithConfig plainConf (Some filterConf)) [tick]) [tick]"

definition envAssessFiltered :: "(nat, nat) testEnv" where
  "envAssessFiltered = NewWithConfig plainConf (Some assessConf)"

definition envFeatureFiltered :: "(nat, nat) testEnv" where
  "envFeatureFiltered = NewWithConfig plainConf (Some featureOnlyConf)"

definition envNoConf :: "(nat, nat) testEnv" where
  "envNoConf = NewWithConfig plainConf None"

text \<open>
  A Before action whose function returns the nil context and no error.
\<close>

definition forget :: "(nat, nat) Func" where
  "forget w c k = (w, None, None)"

definition envForgetful :: "(nat, nat) testEnv" where
  "envForgetful = BeforeTest (New plainConf) [forget]"

section \<open>Retrieval is an order-preserving filter\<close>

lemma collectRole_filter:
  "collectRole r xs result = result @ filter (\<lambda>a. role a = r) xs"
  by (induction xs arbitrary: result) simp_all

lemma getActionsByRole_filter:
  "getActionsByRole e r = filter (\<lambda>a. role a = r) (actions e)"
  by (simp add: getActionsByRole_def collectRole_filter)

lemma getActionsByRole_ctx_update: "getActionsByRole (e\<lparr>ctx := x\<rparr>) r = getActionsByRole e r"
  by (simp add: getActionsByRole_def)

section \<open>The loops over actions\<close>

lemmas suite_ex_defs = plainConf_def tick_def broken_def suite_def envBrokenSetup_def envBrokenFinish_def
  New_def newTestEnv_def Setup_def Finish_def GetSetupActions_def GetFinishActions_def
  getActionsByRole_def run_def

lemmas env_defs = New_def newTestEnv_def getActionsByRole_def run_def plainConf_def tick_def
  broken_def

lemmas test_ex_defs = stepTick_def featureF_def filterConf_def envBrokenBefore_def envBrokenAfter_def
  envFiltered_def NewWithConfig_def BeforeTest_def AfterTest_def GetBeforeActions_def
  GetAfterActions_def

lemmas filter_ex_defs = assessConf_def featureOnlyConf_def envAssessFiltered_def envFeatureFiltered_def
  checkStep_def otherStep_def

lemmas exec_defs = execFeature_def GetStepsByLevel_def notMatched_def Let_def

lemmas stop_ex_defs = stepMark_def stepStop_def featureMixed_def featureStoppingTeardown_def
  featureStopping_def envNoConf_def envPlain_def forget_def envForgetful_def

lemmas levels_defs = levelsInOrder_def levelStep_def assessStep_def assessScope_def notMatched_def

lemma failFastLoop_thread:
  "threadActions as (cfg e) (w, ctx e) = Some (w1, c1) \<Longrightarrow>
   failFastLoop as w e = (w1, e\<lparr>ctx := c1\<rparr>, None)"
proof (induction as arbitrary: w e)
  case Nil
  then show ?case by simp
next
  case (Cons a as)
  obtain w' c' r where ra: "run a w (ctx e) (cfg e) = (w', c', r)"
    by (cases "run a w (ctx e) (cfg e)") auto
  with Cons.prems have r: "r = None" and th: "threadActions as (cfg e) (w', c') = Some (w1, c1)"
    by (auto split: option.splits)
  from th have "threadActions as (cfg (e\<lparr>ctx := c'\<rparr>)) (w', ctx (e\<lparr>ctx := c'\<rparr>)) = Some (w1, c1)"
    by simp
  from Cons.IH [OF this] ra r show ?case by simp
qed

lemma failFastLoop_first_error:
  "threadActions pre (cfg e) (w, ctx e) = Some (w1, c1) \<Longrightarrow>
   run a w1 c1 (cfg e) = (w2, c2, Some err) \<Longrightarrow>
   failFastLoop (pre @ a # post) w e = (w2, e\<lparr>ctx := c2\<rparr>, Some err)"
proof (induction pre arbitrary: w e)
  case Nil
  then show ?case by simp
next
  case (Cons b pre)
  obtain w' c' r where rb: "run b w (ctx e) (cfg e) = (w', c', r)"
    by (cases "run b w (ctx e) (cfg e)") auto
  with Cons.prems(1) have r: "r = None"
    and th: "threadActions pre (cfg e) (w', c') = Some (w1, c1)"
    by (auto split: option.splits)
  from th have th': "threadActions pre (cfg (e\<lparr>ctx := c'\<rparr>)) (w', ctx (e\<lparr>ctx := c'\<rparr>)) = Some (w1, c1)"
    by simp
  from Cons.prems(2) have "run a w1 c1 (cfg (e\<lparr>ctx := c'\<rparr>)) = (w2, c2, Some err)"
    by simp
  from Cons.IH [OF th' this] rb r show ?case by simp
qed

lemma finishLoop_bestEffort:
  "fst (finishLoop as w e) = fst (bestEffort as (cfg e) (w, ctx e)) \<and>
   fst (snd (finishLoop as w e)) = e\<lparr>ctx := snd (bestEffort as (cfg e) (w, ctx e))\<rparr>"
proof (induction as arbitrary: w e)
  case Nil
  show ?case by (simp add: bestEffort_def)
next
  case (Cons a as)
  obtain w' c' r where ra: "run a w (ctx e) (cfg e) = (w', c', r)"
    by (cases "run a w (ctx e) (cfg e)") auto
  have be: "bestEffort (a # as) (cfg e) (w, ctx e) = bestEffort as (cfg e) (w', c')"
    using ra by (simp add: bestEffort_def)
  obtain w'' e'' pr where fl: "finishLoop as w' (e\<lparr>ctx := c'\<rparr>) = (w'', e'', pr)"
    by (cases "finishLoop as w' (e\<lparr>ctx := c'\<rparr>)") auto
  from Cons.IH [of w' "e\<lparr>ctx := c'\<rparr>"] fl
  have "w'' = fst (bestEffort as (cfg e) (w', c'))"
    and "e'' = e\<lparr>ctx := snd (bestEffort as (cfg e) (w', c'))\<rparr>"
    by simp_all
  with ra be fl show ?case by simp
qed

section \<open>Registration\<close>

text \<open>
  C6. A registration call (\<open>Setup\<close>, \<open>BeforeTest\<close>, \<open>AfterTest\<close>, \<open>Finish\<close>) with at least
  one function appends exactly one action of the corresponding role, holding these
  functions, to the environment's action list. Each retrieval operation returns exactly
  the actions of its role, in the order of the action list (the order of registration),
  so the newly registered action comes last; and retrieval gives the empty result when no
  action of the role is registered.
\<close>

theorem registration_appends_one_action:
  assumes "fs \<noteq> []"
  shows "actions (Setup e fs) = actions e @ [\<lparr>role = roleSetup, funcs = fs\<rparr>] \<and>
         actions (BeforeTest e fs) = actions e @ [\<lparr>role = roleBefore, funcs = fs\<rparr>] \<and>
         actions (AfterTest e fs) = actions e @ [\<lparr>role = roleAfter, funcs = fs\<rparr>] \<and>
         actions (Finish e fs) = actions e @ [\<lparr>role = roleFinish, funcs = fs\<rparr>] \<and>
         GetSetupActions (Setup e fs) = GetSetupActions e @ [\<lparr>role = roleSetup, funcs = fs\<rparr>] \<and>
         GetBeforeActions (BeforeTest e fs) =
           GetBeforeActions e @ [\<lparr>role = roleBefore, funcs = fs\<rparr>] \<and>
         GetAfterActions (AfterTest e fs) = GetAfterActions e @ [\<lparr>role = roleAfter, funcs = fs\<rparr>] \<and>
         GetFinishActions (Finish e fs) =
           GetFinishActions e @ [\<lparr>role = roleFinish, funcs = fs\<rparr>] \<and>
         GetSetupActions e = filter (\<lambda>a. role a = roleSetup) (actions e) \<and>
         GetBeforeActions e = filter (\<lambda>a. role a = roleBefore) (actions e) \<and>
         GetAfterActions e = filter (\<lambda>a. role a = roleAfter) (actions e) \<and>
         GetFinishActions e = filter (\<lambda>a. role a = roleFinish) (actions e) \<and>
         (r \<notin> set (map role (actions e)) \<longrightarrow> getActionsByRole e r = [])"
proof -
  have "r \<notin> set (map role (actions e)) \<longrightarrow> filter (\<lambda>a. role a = r) (actions e) = []"
    by (auto simp add: filter_empty_conv)
  with assms show ?thesis
    by (simp add: Setup_def BeforeTest_def AfterTest_def Finish_def GetSetupActions_def
        GetBeforeActions_def GetAfterActions_def GetFinishActions_def getActionsByRole_filter)
qed

theorem registration_appends_one_action_witness:
  "[tick] \<noteq> [] \<and>
   actions (Setup (BeforeTest (New plainConf) [broken]) [tick]) =
     [\<lparr>role = roleBefore, funcs = [broken]\<rparr>, \<lparr>role = roleSetup, funcs = [tick]\<rparr>] \<and>
   GetSetupActions (Setup (BeforeTest (New plainConf) [broken]) [tick]) =
     [\<lparr>role = roleSetup, funcs = [tick]\<rparr>] \<and>
   roleFinish \<notin> set (map role (actions (BeforeTest (New plainConf) [broken]))) \<and>
   GetFinishActions (BeforeTest (New plainConf) [broken]) = []"
proof -
  have n: "[tick] \<noteq> []" by simp
  have a: "roleFinish \<notin> set (map role (actions (BeforeTest (New plainConf) [broken])))"
    by (simp add: BeforeTest_def New_def newTestEnv_def)
  have b: "actions (BeforeTest (New plainConf) [broken]) = [\<lparr>role = roleBefore, funcs = [broken]\<rparr>]"
    by (simp add: BeforeTest_def New_def newTestEnv_def)
  have g: "GetSetupActions (BeforeTest (New plainConf) [broken]) = []"
    by (simp add: BeforeTest_def New_def newTestEnv_def GetSetupActions_def getActionsByRole_def)
  from registration_appends_one_action [OF n, of "BeforeTest (New plainConf) [broken]" roleFinish]
    a b g
  show ?thesis by (simp add: GetFinishActions_def)
qed

text \<open>
  C7. A registration call with no function returns the receiver with its state as it
  was: no action is appended, and the action list has the length it had.
\<close>

theorem registration_of_nothing_is_noop:
  "Setup e [] = e \<and> BeforeTest e [] = e \<and> AfterTest e [] = e \<and> Finish e [] = e \<and>
   length (actions (Setup e [])) = length (actions e) \<and>
   length (actions (BeforeTest e [])) = length (actions e) \<and>
   length (actions (AfterTest e [])) = length (actions e) \<and>
   length (actions (Finish e [])) = length (actions e)"
  by (simp add: Setup_def BeforeTest_def AfterTest_def Finish_def)

section \<open>Deriving an environment\<close>

text \<open>
  C8. For an environment \<open>e\<close> and a non-nil context \<open>c\<close>, \<open>WithContext\<close> returns a new
  environment that has \<open>e\<close>'s configuration, the context \<open>c\<close>, and the same sequence of
  actions as \<open>e\<close> (so every retrieval operation reads back what it reads from \<open>e\<close>), and
  the call leaves \<open>e\<close> as it was. With the nil context the call panics.
\<close>

theorem WithContext_derives_copy:
  "(\<exists>env. WithContext e (Some c) = Returns (e, env) \<and>
          cfg env = cfg e \<and> ctx env = Some c \<and> actions env = actions e \<and>
          GetSetupActions env = GetSetupActions e \<and>
          GetBeforeActions env = GetBeforeActions e \<and>
          GetAfterActions env = GetAfterActions e \<and>
          GetFinishActions env = GetFinishActions e) \<and>
   WithContext e None = Panic ''nil context''"
  by (simp add: WithContext_def GetSetupActions_def GetBeforeActions_def GetAfterActions_def
      GetFinishActions_def getActionsByRole_def)

section \<open>The three loops of a feature\<close>

text \<open>
  The environment enters \<open>execFeature\<close> through its configuration only.
\<close>

lemma execFeature_ctx_update: "execFeature (e\<lparr>ctx := x\<rparr>) c t f w = execFeature e c t f w"
  by (simp add: execFeature_def Let_def cong: option.case_cong if_cong)

lemma execFeature_outcome:
  "snd (snd (execFeature e c t f w)) = Panic msg \<Longrightarrow> msg = ''nil pointer dereference''"
  by (auto simp add: execFeature_def Let_def split: option.splits if_splits prod.splits bool.splits)

text \<open>
  A plan whose steps all return is what the loops of the source execute: the loop over a
  level comes to its end, and leaves the world and the context to the rest of the plan.
\<close>

lemma stepLoop_thread:
  "threadSteps (map (\<lambda>s. (t, s)) ss @ rest) k (w, c) = Some r \<Longrightarrow>
   \<exists>w1 c1. stepLoop ss t k w c = (w1, c1, True) \<and> threadSteps rest k (w1, c1) = Some r"
proof (induction ss arbitrary: w c)
  case Nil
  then show ?case by simp
next
  case (Cons s ss)
  obtain w' res where sf: "stepFunc s w c t k = (w', res)"
    by (cases "stepFunc s w c t k") auto
  with Cons.prems obtain c' where d: "res = Done c'"
    and th: "threadSteps (map (\<lambda>s. (t, s)) ss @ rest) k (w', c') = Some r"
    by (cases res) auto
  from Cons.IH [OF th] sf d show ?case by simp
qed

lemma assessLoop_events:
  "snd (snd (assessLoop as t conf w c)) =
   concat (map (assessScope (notMatched (AssessmentRegex conf)) t) as)"
proof (induction as arbitrary: w c)
  case Nil
  show ?case by simp
next
  case (Cons a as)
  let ?body = "if notMatched (AssessmentRegex conf) (stepName a)
             then (w, c, [Skipf (t @ [stepName a]) (skipAssessmentMsg (stepName a))])
             else (case stepFunc a w c (t @ [stepName a]) (Some conf) of
                     (w', Done c') \<Rightarrow> (w', c', [])
                   | (w', Stopped) \<Rightarrow> (w', c, []))"
  obtain w1 c1 evs where b: "?body = (w1, c1, evs)"
    by (cases ?body) auto
  have evs: "evs = (if notMatched (AssessmentRegex conf) (stepName a)
      then [Skipf (t @ [stepName a]) (skipAssessmentMsg (stepName a))] else [])"
    using b by (auto split: if_splits prod.splits stepResult.splits)
  obtain w2 c2 evs' where r: "assessLoop as t conf w1 c1 = (w2, c2, evs')"
    by (cases "assessLoop as t conf w1 c1") auto
  from Cons.IH [of w1 c1] r
  have "evs' = concat (map (assessScope (notMatched (AssessmentRegex conf)) t) as)"
    by simp
  moreover have "assessScope (notMatched (AssessmentRegex conf)) t a =
      Enter (t @ [stepName a]) # evs @ [Leave (t @ [stepName a])]"
    by (simp add: assessScope_def evs)
  ultimately show ?case using b r
    by (simp add: Let_def)
qed

lemma assessLoop_thread:
  "threadSteps
     (map (\<lambda>s. (t @ [stepName s], s))
        (filter (\<lambda>s. \<not> notMatched (AssessmentRegex conf) (stepName s)) as) @ rest)
     (Some conf) (w, c) = Some r \<Longrightarrow>
   \<exists>w1 c1 evs. assessLoop as t conf w c = (w1, c1, evs) \<and>
     threadSteps rest (Some conf) (w1, c1) = Some r"
proof (induction as arbitrary: w c)
  case Nil
  then show ?case by simp
next
  case (Cons a as)
  show ?case
  proof (cases "notMatched (AssessmentRegex conf) (stepName a)")
    case True
    with Cons.prems have "threadSteps
     (map (\<lambda>s. (t @ [stepName s], s))
        (filter (\<lambda>s. \<not> notMatched (AssessmentRegex conf) (stepName s)) as) @ rest)
     (Some conf) (w, c) = Some r" by simp
    from Cons.IH [OF this] True show ?thesis by (auto simp add: Let_def)
  next
    case False
    obtain w' res where sf: "stepFunc a w c (t @ [stepName a]) (Some conf) = (w', res)"
      by (cases "stepFunc a w c (t @ [stepName a]) (Some conf)") auto
    with Cons.prems False obtain c' where d: "res = Done c'"
      and th: "threadSteps
     (map (\<lambda>s. (t @ [stepName s], s))
        (filter (\<lambda>s. \<not> notMatched (AssessmentRegex conf) (stepName s)) as) @ rest)
     (Some conf) (w', c') = Some r"
      by (cases res) auto
    from Cons.IH [OF th] sf d False show ?thesis by (auto simp add: Let_def)
  qed
qed

text \<open>
  The loops of the source are the folds of the specification: a level stops at the first
  step that stops the scope, the loop over the assessments never stops early.
\<close>

lemma levelStep_stopped: "foldl (levelStep t k) (w, c, False) ss = (w, c, False)"
  by (induction ss) (simp_all add: levelStep_def)

lemma stepLoop_foldl: "stepLoop ss t k w c = foldl (levelStep t k) (w, c, True) ss"
proof (induction ss arbitrary: w c)
  case Nil
  show ?case by simp
next
  case (Cons s ss)
  obtain w' res where sf: "stepFunc s w c t k = (w', res)"
    by (cases "stepFunc s w c t k") auto
  show ?case
  proof (cases res)
    case (Done c')
    with sf have "levelStep t k (w, c, True) s = (w', c', True)"
      by (simp add: levelStep_def)
    with sf Done Cons.IH [of w' c'] show ?thesis by simp
  next
    case Stopped
    with sf have "levelStep t k (w, c, True) s = (w', c, False)"
      by (simp add: levelStep_def)
    with sf Stopped show ?thesis by (simp add: levelStep_stopped)
  qed
qed

lemma assessLoop_foldl:
  "assessLoop as t conf w c =
     (case foldl (assessStep (notMatched (AssessmentRegex conf)) t (Some conf)) (w, c) as of
        (w', c') \<Rightarrow>
          (w', c', concat (map (assessScope (notMatched (AssessmentRegex conf)) t) as)))"
proof (induction as arbitrary: w c)
  case Nil
  show ?case by simp
next
  case (Cons a as)
  let ?ex = "notMatched (AssessmentRegex conf)"
  obtain w1 c1 where st: "assessStep ?ex t (Some conf) (w, c) a = (w1, c1)"
    by (cases "assessStep ?ex t (Some conf) (w, c) a") auto
  let ?evs = "if ?ex (stepName a)
      then [Skipf (t @ [stepName a]) (skipAssessmentMsg (stepName a))] else []"
  have body: "(if ?ex (stepName a)
             then (w, c, [Skipf (t @ [stepName a]) (skipAssessmentMsg (stepName a))])
             else (case stepFunc a w c (t @ [stepName a]) (Some conf) of
                     (w', Done c') \<Rightarrow> (w', c', [])
                   | (w', Stopped) \<Rightarrow> (w', c, []))) = (w1, c1, ?evs)"
    using st by (auto simp add: assessStep_def split: prod.splits stepResult.splits)
  have sc: "assessScope ?ex t a = Enter (t @ [stepName a]) # ?evs @ [Leave (t @ [stepName a])]"
    by (simp add: assessScope_def)
  obtain w2 c2 where fl: "foldl (assessStep ?ex t (Some conf)) (w1, c1) as = (w2, c2)"
    by (cases "foldl (assessStep ?ex t (Some conf)) (w1, c1) as") auto
  from Cons.IH [of w1 c1] fl
  have ih: "assessLoop as t conf w1 c1 = (w2, c2, concat (map (assessScope ?ex t) as))"
    by simp
  have "assessLoop (a # as) t conf w c =
      (w2, c2, Enter (t @ [stepName a]) # ?evs @ [Leave (t @ [stepName a])] @
         concat (map (assessScope ?ex t) as))"
    by (simp only: assessLoop.simps Let_def body ih prod.case) simp
  with st fl sc show ?case by simp
qed

lemma execFeature_executing:
  assumes "cfg e = Some conf"
    and "\<not> notMatched (FeatureRegex conf) (featureName f)"
  shows "execFeature e c t f w =
           levelsInOrder (notMatched (AssessmentRegex conf)) (t @ [featureName f]) (cfg e)
             (featureSteps f) w c"
proof -
  let ?t = "t @ [featureName f]"
  let ?ex = "notMatched (AssessmentRegex conf)"
  let ?S = "filter (\<lambda>s. stepLevel s = LevelSetup) (featureSteps f)"
  let ?A = "filter (\<lambda>s. stepLevel s = LevelAssess) (featureSteps f)"
  let ?T = "filter (\<lambda>s. stepLevel s = LevelTeardown) (featureSteps f)"
  obtain w1 c1 live where s1: "foldl (levelStep ?t (Some conf)) (w, c, True) ?S = (w1, c1, live)"
    by (cases "foldl (levelStep ?t (Some conf)) (w, c, True) ?S") auto
  obtain w2 c2 where s2: "foldl (assessStep ?ex ?t (Some conf)) (w1, c1) ?A = (w2, c2)"
    by (cases "foldl (assessStep ?ex ?t (Some conf)) (w1, c1) ?A") auto
  obtain w3 c3 live' where s3: "foldl (levelStep ?t (Some conf)) (w2, c2, True) ?T = (w3, c3, live')"
    by (cases "foldl (levelStep ?t (Some conf)) (w2, c2, True) ?T") auto
  have l1: "stepLoop ?S ?t (Some conf) w c = (w1, c1, live)"
    by (simp add: stepLoop_foldl s1)
  have l2: "assessLoop ?A ?t conf w1 c1 = (w2, c2, concat (map (assessScope ?ex ?t) ?A))"
    by (simp add: assessLoop_foldl s2)
  have l3: "stepLoop ?T ?t (Some conf) w2 c2 = (w3, c3, live')"
    by (simp add: stepLoop_foldl s3)
  have rhs: "levelsInOrder ?ex ?t (cfg e) (featureSteps f) w c =
      (if live then (w3, [Enter ?t] @ concat (map (assessScope ?ex ?t) ?A) @ [Leave ?t], Returns c3)
       else (w1, [Enter ?t, Leave ?t], Returns c1))"
    using assms(1) s1 s2 s3 by (simp add: levelsInOrder_def)
  have lhs: "execFeature e c t f w =
      (if live then (w3, [Enter ?t] @ concat (map (assessScope ?ex ?t) ?A) @ [Leave ?t], Returns c3)
       else (w1, [Enter ?t, Leave ?t], Returns c1))"
    using assms l1 l2 l3 by (simp add: execFeature_def GetStepsByLevel_def Let_def)
  from lhs rhs show ?thesis by simp
qed






section \<open>The context of an obtainable environment\<close>

lemma obtainable_ctx: "obtainable e \<Longrightarrow> ctx e \<noteq> None"
  by (induction rule: obtainable.induct)
    (auto simp add: New_def newTestEnv_def NewWithConfig_def NewWithContext_def WithContext_def
      Setup_def BeforeTest_def AfterTest_def Finish_def Let_def split: if_splits)

lemma Run_no_ctx_panic:
  "ctx e \<noteq> None \<Longrightarrow> snd (snd (snd (Run e m w))) \<noteq> Panic ''context not set''"
  by (auto simp add: Run_def split: prod.splits option.splits)

lemma Test_no_ctx_panic:
  assumes "ctx e \<noteq> None"
  shows "snd (snd (snd (Test e t f w))) \<noteq> Panic ''context not set''"
proof -
  obtain w1 e1 r where ff: "failFastLoop (GetBeforeActions e) w e = (w1, e1, r)"
    by (cases "failFastLoop (GetBeforeActions e) w e") auto
  show ?thesis
  proof (cases r)
    case (Some err)
    with assms ff show ?thesis by (auto simp add: Test_def)
  next
    case None
    obtain w2 evs oc where ef: "execFeature e1 (ctx e1) t f w1 = (w2, evs, oc)"
      by (cases "execFeature e1 (ctx e1) t f w1") auto
    have "oc \<noteq> Panic ''context not set''"
      using execFeature_outcome [of e1 "ctx e1" t f w1 "''context not set''"] ef by auto
    with assms ff None ef show ?thesis
      by (cases oc) (auto simp add: Test_def Let_def split: prod.splits option.splits)
  qed
qed

text \<open>
  C9, as amended. An environment obtained through \<open>New\<close>, \<open>NewWithConfig\<close>, a successful
  \<open>NewWithContext\<close>, \<open>WithContext\<close> and any sequence of registrations carries a non-nil
  context as these operations leave it, so a call of \<open>Run\<close> or of \<open>Test\<close> on it does not
  end in the panic of the check at its entry.
\<close>

theorem obtainable_has_context:
  assumes "obtainable e"
  shows "ctx e \<noteq> None \<and>
         snd (snd (snd (Run e m w))) \<noteq> Panic ''context not set'' \<and>
         snd (snd (snd (Test e t f w))) \<noteq> Panic ''context not set''"
proof -
  from assms have c: "ctx e \<noteq> None" by (rule obtainable_ctx)
  from c have "snd (snd (snd (Run e m w))) \<noteq> Panic ''context not set''"
    by (rule Run_no_ctx_panic)
  moreover from c have "snd (snd (snd (Test e t f w))) \<noteq> Panic ''context not set''"
    by (rule Test_no_ctx_panic)
  ultimately show ?thesis using c by simp
qed

theorem obtainable_has_context_witness:
  "obtainable (Setup (New plainConf) [tick]) \<and>
   ctx (Setup (New plainConf) [tick]) \<noteq> None \<and>
   snd (snd (snd (Run (Setup (New plainConf) [tick]) suite 0))) \<noteq> Panic ''context not set''"
proof -
  have ob: "obtainable (Setup (New plainConf) [tick])"
    by (intro obtainable.bySetup obtainable.byNew)
  from obtainable_has_context [OF ob, of suite 0] ob show ?thesis by simp
qed

text \<open>
  C9 as it was stated fails: the check is reached. \<open>Run\<close> and \<open>Test\<close> assign to \<open>e.ctx\<close>
  whatever the actions and the feature return. \<open>envForgetful\<close> is obtained by \<open>New\<close> and
  \<open>BeforeTest\<close>; its Before function returns the nil context without an error, so the
  first call of \<open>Test\<close> returns and leaves the environment with the nil context, and the
  second call of \<open>Test\<close> on the same environment panics at the check.
\<close>

theorem obtainable_check_reached_counterexample:
  "obtainable envForgetful \<and>
   Test envForgetful [''TestX''] featureF 0 =
     (3, envForgetful\<lparr>ctx := None\<rparr>,
      [Enter [''TestX'', ''F''], Enter [''TestX'', ''F'', ''check''],
       Leave [''TestX'', ''F'', ''check''], Leave [''TestX'', ''F'']], Returns ()) \<and>
   Test (envForgetful\<lparr>ctx := None\<rparr>) [''TestX''] featureF 3 =
     (3, envForgetful\<lparr>ctx := None\<rparr>, [], Panic ''context not set'')"
proof -
  have "obtainable envForgetful"
    unfolding envForgetful_def by (intro obtainable.byBeforeTest obtainable.byNew)
  moreover have "Test envForgetful [''TestX''] featureF 0 =
     (3, envForgetful\<lparr>ctx := None\<rparr>,
      [Enter [''TestX'', ''F''], Enter [''TestX'', ''F'', ''check''],
       Leave [''TestX'', ''F'', ''check''], Leave [''TestX'', ''F'']], Returns ())"
    by (simp add: Test_def exec_defs test_ex_defs env_defs stop_ex_defs)
  moreover have "Test (envForgetful\<lparr>ctx := None\<rparr>) [''TestX''] featureF 3 =
     (3, envForgetful\<lparr>ctx := None\<rparr>, [], Panic ''context not set'')"
    by (simp add: Test_def)
  ultimately show ?thesis by simp
qed

section \<open>The setup phase of Run\<close>

text \<open>
  C2. In \<open>Run\<close>, the Setup actions are executed in the order retrieval gives them, each
  on the world and the context the one before it left. When the actions \<open>pre\<close> succeed and
  the next one, \<open>a\<close>, returns an error, \<open>Run\<close> ends there with \<open>log.Fatal\<close>: the world is
  the one \<open>a\<close> left, whatever the later Setup actions \<open>post\<close>, the test suite \<open>m\<close> and the
  Finish actions are, so none of them is executed. When every Setup action succeeds, the
  test suite is started on the world and the context the last one left.
\<close>

theorem Run_setup_fail_fast:
  assumes "ctx e \<noteq> None"
  shows "(GetSetupActions e = pre @ a # post \<and>
          threadActions pre (cfg e) (w, ctx e) = Some (w1, c1) \<and>
          run a w1 c1 (cfg e) = (w2, c2, Some err)
          \<longrightarrow> Run e m w = (w2, e\<lparr>ctx := c2\<rparr>, [err], OsExit 1))
       \<and> (threadActions (GetSetupActions e) (cfg e) (w, ctx e) = Some (v1, d1)
          \<longrightarrow> Run e m w =
                (case m v1 (e\<lparr>ctx := d1\<rparr>) of
                   (v2, e2, exitCode) \<Rightarrow>
                     (case finishLoop (GetFinishActions e2) v2 e2 of
                        (v3, e3, printed) \<Rightarrow> (v3, e3, printed, Returns exitCode))))"
proof (intro conjI impI)
  assume h: "GetSetupActions e = pre @ a # post \<and>
          threadActions pre (cfg e) (w, ctx e) = Some (w1, c1) \<and>
          run a w1 c1 (cfg e) = (w2, c2, Some err)"
  then have "failFastLoop (GetSetupActions e) w e = (w2, e\<lparr>ctx := c2\<rparr>, Some err)"
    by (simp add: failFastLoop_first_error)
  with assms show "Run e m w = (w2, e\<lparr>ctx := c2\<rparr>, [err], OsExit 1)"
    by (simp add: Run_def)
next
  assume "threadActions (GetSetupActions e) (cfg e) (w, ctx e) = Some (v1, d1)"
  then have "failFastLoop (GetSetupActions e) w e = (v1, e\<lparr>ctx := d1\<rparr>, None)"
    by (rule failFastLoop_thread)
  with assms show "Run e m w =
                (case m v1 (e\<lparr>ctx := d1\<rparr>) of
                   (v2, e2, exitCode) \<Rightarrow>
                     (case finishLoop (GetFinishActions e2) v2 e2 of
                        (v3, e3, printed) \<Rightarrow> (v3, e3, printed, Returns exitCode)))"
    by (auto simp add: Run_def)
qed

theorem Run_setup_fail_fast_witness:
  "ctx envBrokenSetup \<noteq> None \<and>
   GetSetupActions envBrokenSetup =
     [\<lparr>role = roleSetup, funcs = [tick]\<rparr>] @ \<lparr>role = roleSetup, funcs = [broken]\<rparr> #
     [\<lparr>role = roleSetup, funcs = [tick]\<rparr>] \<and>
   threadActions [\<lparr>role = roleSetup, funcs = [tick]\<rparr>] (cfg envBrokenSetup)
     (0, ctx envBrokenSetup) = Some (1, Some Background) \<and>
   run \<lparr>role = roleSetup, funcs = [broken]\<rparr> 1 (Some Background) (cfg envBrokenSetup) =
     (11, Some Background, Some ''boom'') \<and>
   Run envBrokenSetup suite 0 = (11, envBrokenSetup\<lparr>ctx := Some Background\<rparr>, [''boom''], OsExit 1) \<and>
   threadActions (GetSetupActions envBrokenFinish) (cfg envBrokenFinish)
     (0, ctx envBrokenFinish) = Some (1, Some Background) \<and>
   Run envBrokenFinish suite 0 = (112, envBrokenFinish, [''boom''], Returns 3)"
proof -
  have c: "ctx envBrokenSetup \<noteq> None" by (simp add: suite_ex_defs)
  have g: "GetSetupActions envBrokenSetup =
     [\<lparr>role = roleSetup, funcs = [tick]\<rparr>] @ \<lparr>role = roleSetup, funcs = [broken]\<rparr> #
     [\<lparr>role = roleSetup, funcs = [tick]\<rparr>]" by (simp add: suite_ex_defs)
  have t: "threadActions [\<lparr>role = roleSetup, funcs = [tick]\<rparr>] (cfg envBrokenSetup)
     (0, ctx envBrokenSetup) = Some (1, Some Background)" by (simp add: suite_ex_defs)
  have r: "run \<lparr>role = roleSetup, funcs = [broken]\<rparr> 1 (Some Background) (cfg envBrokenSetup) =
     (11, Some Background, Some ''boom'')" by (simp add: suite_ex_defs)
  have c': "ctx envBrokenFinish \<noteq> None" by (simp add: suite_ex_defs)
  have t': "threadActions (GetSetupActions envBrokenFinish) (cfg envBrokenFinish)
     (0, ctx envBrokenFinish) = Some (1, Some Background)" by (simp add: suite_ex_defs)
  have f: "finishLoop (GetFinishActions envBrokenFinish) 101 envBrokenFinish = (112, envBrokenFinish, [''boom''])"
    by (simp add: suite_ex_defs)
  have e: "envBrokenFinish\<lparr>ctx := Some Background\<rparr> = envBrokenFinish" by (simp add: suite_ex_defs)
  from Run_setup_fail_fast [OF c, THEN conjunct1, rule_format, OF conjI [OF g conjI [OF t r]], of suite]
    Run_setup_fail_fast [OF c', THEN conjunct2, rule_format, OF t', of suite]
    c g t r t' f e
  show ?thesis by (simp add: suite_def)
qed

section \<open>The finish phase of Run\<close>

text \<open>
  C3. Once the setup phase has succeeded and the test suite has returned its exit code,
  \<open>Run\<close> executes every Finish action the environment then holds, in the order
  retrieval gives them, each on the world and the context the one before it left,
  whether or not that one returned an error; and \<open>Run\<close> returns the exit code of the
  test suite, whatever the Finish actions returned.
\<close>

theorem Run_finish_best_effort:
  assumes "ctx e \<noteq> None"
    and "threadActions (GetSetupActions e) (cfg e) (w, ctx e) = Some (w1, c1)"
    and "m w1 (e\<lparr>ctx := c1\<rparr>) = (w2, e2, exitCode)"
  shows "fst (Run e m w) = fst (bestEffort (GetFinishActions e2) (cfg e2) (w2, ctx e2)) \<and>
         fst (snd (Run e m w)) =
           e2\<lparr>ctx := snd (bestEffort (GetFinishActions e2) (cfg e2) (w2, ctx e2))\<rparr> \<and>
         snd (snd (snd (Run e m w))) = Returns exitCode"
proof -
  from assms(2) have ff: "failFastLoop (GetSetupActions e) w e = (w1, e\<lparr>ctx := c1\<rparr>, None)"
    by (rule failFastLoop_thread)
  obtain w3 e3 printed where fl: "finishLoop (GetFinishActions e2) w2 e2 = (w3, e3, printed)"
    by (cases "finishLoop (GetFinishActions e2) w2 e2") auto
  from assms(1) ff assms(3) fl have r: "Run e m w = (w3, e3, printed, Returns exitCode)"
    by (auto simp add: Run_def)
  from finishLoop_bestEffort [of "GetFinishActions e2" w2 e2] fl
  have "w3 = fst (bestEffort (GetFinishActions e2) (cfg e2) (w2, ctx e2))"
    and "e3 = e2\<lparr>ctx := snd (bestEffort (GetFinishActions e2) (cfg e2) (w2, ctx e2))\<rparr>"
    by simp_all
  with r show ?thesis by simp
qed

theorem Run_finish_best_effort_witness:
  "ctx envBrokenFinish \<noteq> None \<and>
   threadActions (GetSetupActions envBrokenFinish) (cfg envBrokenFinish)
     (0, ctx envBrokenFinish) = Some (1, Some Background) \<and>
   suite 1 (envBrokenFinish\<lparr>ctx := Some Background\<rparr>) = (101, envBrokenFinish, 3) \<and>
   GetFinishActions envBrokenFinish =
     [\<lparr>role = roleFinish, funcs = [broken]\<rparr>, \<lparr>role = roleFinish, funcs = [tick]\<rparr>] \<and>
   bestEffort (GetFinishActions envBrokenFinish) (cfg envBrokenFinish)
     (101, ctx envBrokenFinish) = (112, Some Background) \<and>
   fst (Run envBrokenFinish suite 0) = 112 \<and>
   fst (snd (Run envBrokenFinish suite 0)) = envBrokenFinish \<and>
   snd (snd (snd (Run envBrokenFinish suite 0))) = Returns 3"
proof -
  have c: "ctx envBrokenFinish \<noteq> None" by (simp add: suite_ex_defs)
  have t: "threadActions (GetSetupActions envBrokenFinish) (cfg envBrokenFinish)
     (0, ctx envBrokenFinish) = Some (1, Some Background)" by (simp add: suite_ex_defs)
  have s: "suite 1 (envBrokenFinish\<lparr>ctx := Some Background\<rparr>) = (101, envBrokenFinish, 3)"
    by (simp add: suite_ex_defs)
  have g: "GetFinishActions envBrokenFinish =
     [\<lparr>role = roleFinish, funcs = [broken]\<rparr>, \<lparr>role = roleFinish, funcs = [tick]\<rparr>]"
    by (simp add: suite_ex_defs)
  have b: "bestEffort (GetFinishActions envBrokenFinish) (cfg envBrokenFinish)
     (101, ctx envBrokenFinish) = (112, Some Background)"
    by (simp add: g bestEffort_def) (simp add: suite_ex_defs)
  have e: "envBrokenFinish\<lparr>ctx := Some Background\<rparr> = envBrokenFinish" by (simp add: suite_ex_defs)
  from Run_finish_best_effort [where m = suite, OF c t s] c t s g b e show ?thesis by simp
qed

section \<open>Before and After actions of Test\<close>

text \<open>
  C4. In \<open>Test\<close>, when the Before actions \<open>pre\<close> succeed and the next one, \<open>a\<close>, returns an
  error, the call ends there with \<open>t.Fatalf\<close> on the handle it was given, the message
  naming the feature and the error: the world is the one \<open>a\<close> left and no scope was
  opened, so neither the later Before actions, nor the feature, nor any After action was
  executed. The After actions follow the same policy: when the Before actions and the
  feature have been executed and an After action returns an error, the call ends there
  with \<open>t.Fatalf\<close>, and the later After actions are not executed.
\<close>

theorem Test_fail_fast:
  assumes "ctx e \<noteq> None"
  shows "(GetBeforeActions e = pre @ a # post \<and>
          threadActions pre (cfg e) (w, ctx e) = Some (w1, c1) \<and>
          run a w1 c1 (cfg e) = (w2, c2, Some err)
          \<longrightarrow> Test e t f w =
                (w2, e\<lparr>ctx := c2\<rparr>,
                 [Fatalf t (''BeforeTest failure: '' @ featureName f @ '': '' @ err)], Goexit))
       \<and> (threadActions (GetBeforeActions e) (cfg e) (w, ctx e) = Some (v1, d1) \<and>
          execFeature e d1 t f v1 = (v2, evs, Returns d2) \<and>
          GetAfterActions e = pre' @ a' # post' \<and>
          threadActions pre' (cfg e) (v2, d2) = Some (v3, d3) \<and>
          run a' v3 d3 (cfg e) = (v4, d4, Some err')
          \<longrightarrow> Test e t f w =
                (v4, e\<lparr>ctx := d4\<rparr>,
                 evs @ [Fatalf t (''AfterTest failure: '' @ featureName f @ '': '' @ err')],
                 Goexit))"
proof (intro conjI impI)
  assume h: "GetBeforeActions e = pre @ a # post \<and>
          threadActions pre (cfg e) (w, ctx e) = Some (w1, c1) \<and>
          run a w1 c1 (cfg e) = (w2, c2, Some err)"
  then have "failFastLoop (GetBeforeActions e) w e = (w2, e\<lparr>ctx := c2\<rparr>, Some err)"
    by (simp add: failFastLoop_first_error)
  with assms show "Test e t f w =
                (w2, e\<lparr>ctx := c2\<rparr>,
                 [Fatalf t (''BeforeTest failure: '' @ featureName f @ '': '' @ err)], Goexit)"
    by (auto simp add: Test_def beforeFailureMsg_def)
next
  assume h: "threadActions (GetBeforeActions e) (cfg e) (w, ctx e) = Some (v1, d1) \<and>
          execFeature e d1 t f v1 = (v2, evs, Returns d2) \<and>
          GetAfterActions e = pre' @ a' # post' \<and>
          threadActions pre' (cfg e) (v2, d2) = Some (v3, d3) \<and>
          run a' v3 d3 (cfg e) = (v4, d4, Some err')"
  then have bf: "failFastLoop (GetBeforeActions e) w e = (v1, e\<lparr>ctx := d1\<rparr>, None)"
    by (simp add: failFastLoop_thread)
  from h have ef: "execFeature (e\<lparr>ctx := d1\<rparr>) (ctx (e\<lparr>ctx := d1\<rparr>)) t f v1 = (v2, evs, Returns d2)"
    by (simp add: execFeature_ctx_update)
  from h have ga: "GetAfterActions (e\<lparr>ctx := d2\<rparr>) = pre' @ a' # post'"
    by (simp add: GetAfterActions_def getActionsByRole_ctx_update)
  from h have "threadActions pre' (cfg (e\<lparr>ctx := d2\<rparr>)) (v2, ctx (e\<lparr>ctx := d2\<rparr>)) = Some (v3, d3)"
    and "run a' v3 d3 (cfg (e\<lparr>ctx := d2\<rparr>)) = (v4, d4, Some err')"
    by simp_all
  then have "failFastLoop (pre' @ a' # post') v2 (e\<lparr>ctx := d2\<rparr>) = (v4, e\<lparr>ctx := d2\<rparr>\<lparr>ctx := d4\<rparr>, Some err')"
    by (rule failFastLoop_first_error)
  then have af: "failFastLoop (pre' @ a' # post') v2 (e\<lparr>ctx := d2\<rparr>) = (v4, e\<lparr>ctx := d4\<rparr>, Some err')"
    by simp
  from assms bf ef ga af show "Test e t f w =
                (v4, e\<lparr>ctx := d4\<rparr>,
                 evs @ [Fatalf t (''AfterTest failure: '' @ featureName f @ '': '' @ err')],
                 Goexit)"
    by (auto simp add: Test_def afterFailureMsg_def Let_def)
qed

theorem Test_fail_fast_witness:
  "ctx envBrokenBefore \<noteq> None \<and>
   GetBeforeActions envBrokenBefore =
     [\<lparr>role = roleBefore, funcs = [tick]\<rparr>] @ \<lparr>role = roleBefore, funcs = [broken]\<rparr> #
     [\<lparr>role = roleBefore, funcs = [tick]\<rparr>] \<and>
   threadActions [\<lparr>role = roleBefore, funcs = [tick]\<rparr>] (cfg envBrokenBefore)
     (0, ctx envBrokenBefore) = Some (1, Some Background) \<and>
   run \<lparr>role = roleBefore, funcs = [broken]\<rparr> 1 (Some Background) (cfg envBrokenBefore) =
     (11, Some Background, Some ''boom'') \<and>
   Test envBrokenBefore [''TestX''] featureF 0 =
     (11, envBrokenBefore, [Fatalf [''TestX''] ''BeforeTest failure: F: boom''], Goexit) \<and>
   ctx envBrokenAfter \<noteq> None \<and>
   threadActions (GetBeforeActions envBrokenAfter) (cfg envBrokenAfter)
     (0, ctx envBrokenAfter) = Some (1, Some Background) \<and>
   execFeature envBrokenAfter (Some Background) [''TestX''] featureF 1 =
     (4, [Enter [''TestX'', ''F''], Enter [''TestX'', ''F'', ''check''],
          Leave [''TestX'', ''F'', ''check''], Leave [''TestX'', ''F'']],
      Returns (Some Background)) \<and>
   GetAfterActions envBrokenAfter =
     [\<lparr>role = roleAfter, funcs = [tick]\<rparr>] @ \<lparr>role = roleAfter, funcs = [broken]\<rparr> #
     [\<lparr>role = roleAfter, funcs = [tick]\<rparr>] \<and>
   threadActions [\<lparr>role = roleAfter, funcs = [tick]\<rparr>] (cfg envBrokenAfter)
     (4, Some Background) = Some (5, Some Background) \<and>
   run \<lparr>role = roleAfter, funcs = [broken]\<rparr> 5 (Some Background) (cfg envBrokenAfter) =
     (15, Some Background, Some ''boom'') \<and>
   Test envBrokenAfter [''TestX''] featureF 0 =
     (15, envBrokenAfter,
      [Enter [''TestX'', ''F''], Enter [''TestX'', ''F'', ''check''],
       Leave [''TestX'', ''F'', ''check''], Leave [''TestX'', ''F''],
       Fatalf [''TestX''] ''AfterTest failure: F: boom''], Goexit)"
proof -
  have c: "ctx envBrokenBefore \<noteq> None" by (simp add: test_ex_defs env_defs)
  have g: "GetBeforeActions envBrokenBefore =
     [\<lparr>role = roleBefore, funcs = [tick]\<rparr>] @ \<lparr>role = roleBefore, funcs = [broken]\<rparr> #
     [\<lparr>role = roleBefore, funcs = [tick]\<rparr>]" by (simp add: test_ex_defs env_defs)
  have t: "threadActions [\<lparr>role = roleBefore, funcs = [tick]\<rparr>] (cfg envBrokenBefore)
     (0, ctx envBrokenBefore) = Some (1, Some Background)" by (simp add: test_ex_defs env_defs)
  have r: "run \<lparr>role = roleBefore, funcs = [broken]\<rparr> 1 (Some Background) (cfg envBrokenBefore) =
     (11, Some Background, Some ''boom'')" by (simp add: test_ex_defs env_defs)
  have e: "envBrokenBefore\<lparr>ctx := Some Background\<rparr> = envBrokenBefore"
    by (simp add: test_ex_defs env_defs)
  have c': "ctx envBrokenAfter \<noteq> None" by (simp add: test_ex_defs env_defs)
  have t': "threadActions (GetBeforeActions envBrokenAfter) (cfg envBrokenAfter)
     (0, ctx envBrokenAfter) = Some (1, Some Background)" by (simp add: test_ex_defs env_defs)
  have x: "execFeature envBrokenAfter (Some Background) [''TestX''] featureF 1 =
     (4, [Enter [''TestX'', ''F''], Enter [''TestX'', ''F'', ''check''],
          Leave [''TestX'', ''F'', ''check''], Leave [''TestX'', ''F'']],
      Returns (Some Background))"
    by (simp add: execFeature_def GetStepsByLevel_def notMatched_def Let_def test_ex_defs env_defs)
  have g': "GetAfterActions envBrokenAfter =
     [\<lparr>role = roleAfter, funcs = [tick]\<rparr>] @ \<lparr>role = roleAfter, funcs = [broken]\<rparr> #
     [\<lparr>role = roleAfter, funcs = [tick]\<rparr>]" by (simp add: test_ex_defs env_defs)
  have u: "threadActions [\<lparr>role = roleAfter, funcs = [tick]\<rparr>] (cfg envBrokenAfter)
     (4, Some Background) = Some (5, Some Background)" by (simp add: test_ex_defs env_defs)
  have r': "run \<lparr>role = roleAfter, funcs = [broken]\<rparr> 5 (Some Background) (cfg envBrokenAfter) =
     (15, Some Background, Some ''boom'')" by (simp add: test_ex_defs env_defs)
  have e': "envBrokenAfter\<lparr>ctx := Some Background\<rparr> = envBrokenAfter"
    by (simp add: test_ex_defs env_defs)
  have f: "featureName featureF = ''F''" by (simp add: featureF_def)
  from Test_fail_fast [OF c, THEN conjunct1, rule_format, OF conjI [OF g conjI [OF t r]],
      of "[''TestX'']" featureF]
    Test_fail_fast [OF c', THEN conjunct2, rule_format,
      OF conjI [OF t' conjI [OF x conjI [OF g' conjI [OF u r']]]]]
    c g t r e c' t' x g' u r' e' f
  show ?thesis by simp
qed

section \<open>The order of a feature's steps\<close>

text \<open>
  C1, as amended. For an environment that carries a configuration and a feature whose
  name no configured feature filter leaves out, \<open>execFeature\<close> executes the Setup-level
  steps under the handle of the feature's scope, then opens one nested scope per
  Assess-level step, under the step's name, and executes in it the step unless a
  configured assessment filter leaves its name out (that scope is marked skipped and the
  step is not executed), then executes the Teardown-level steps under the handle of the
  feature's scope; within a level the steps keep the order of the feature's step list,
  and each step receives the world the step before it left and the context the last
  returning step before it produced, across the levels. A Setup-level or Teardown-level
  step that stops the feature's scope ends the feature there: no later step is executed.
  An Assess-level step that stops its own scope leaves the context as it was, and the
  later assessments and the Teardown-level steps are still executed. In particular, when
  every step that is not filtered out returns, all of them are executed, in this order,
  as one thread of world and context.
\<close>

theorem execFeature_levels_in_order:
  assumes "cfg e = Some conf"
    and "\<not> notMatched (FeatureRegex conf) (featureName f)"
  shows "execFeature e c t f w =
           levelsInOrder (notMatched (AssessmentRegex conf)) (t @ [featureName f]) (cfg e)
             (featureSteps f) w c
       \<and> (threadSteps
            (levelPlan (notMatched (AssessmentRegex conf)) (t @ [featureName f]) (featureSteps f))
            (cfg e) (w, c) = Some (w', c')
          \<longrightarrow> execFeature e c t f w =
                (w',
                 [Enter (t @ [featureName f])] @
                 concat (map (assessScope (notMatched (AssessmentRegex conf)) (t @ [featureName f]))
                           (filter (\<lambda>s. stepLevel s = LevelAssess) (featureSteps f))) @
                 [Leave (t @ [featureName f])],
                 Returns c'))"
proof (intro conjI impI)
  show "execFeature e c t f w =
           levelsInOrder (notMatched (AssessmentRegex conf)) (t @ [featureName f]) (cfg e)
             (featureSteps f) w c"
    using assms by (rule execFeature_executing)
next
  let ?t = "t @ [featureName f]"
  let ?S = "filter (\<lambda>s. stepLevel s = LevelSetup) (featureSteps f)"
  let ?A = "filter (\<lambda>s. stepLevel s = LevelAssess) (featureSteps f)"
  let ?T = "filter (\<lambda>s. stepLevel s = LevelTeardown) (featureSteps f)"
  let ?ex = "notMatched (AssessmentRegex conf)"
  assume h: "threadSteps (levelPlan ?ex ?t (featureSteps f)) (cfg e) (w, c) = Some (w', c')"
  have plan: "levelPlan ?ex ?t (featureSteps f) =
    map (\<lambda>s. (?t, s)) ?S @
    (map (\<lambda>s. (?t @ [stepName s], s)) (filter (\<lambda>s. \<not> ?ex (stepName s)) ?A) @
     (map (\<lambda>s. (?t, s)) ?T @ []))"
    by (simp add: levelPlan_def)
  from h have th: "threadSteps (map (\<lambda>s. (?t, s)) ?S @
    (map (\<lambda>s. (?t @ [stepName s], s)) (filter (\<lambda>s. \<not> ?ex (stepName s)) ?A) @
     (map (\<lambda>s. (?t, s)) ?T @ []))) (Some conf) (w, c) = Some (w', c')"
    unfolding plan assms(1) .
  from stepLoop_thread [OF th] obtain w1 c1 where
    s1: "stepLoop ?S ?t (Some conf) w c = (w1, c1, True)"
    and th1: "threadSteps
      (map (\<lambda>s. (?t @ [stepName s], s)) (filter (\<lambda>s. \<not> ?ex (stepName s)) ?A) @
       (map (\<lambda>s. (?t, s)) ?T @ [])) (Some conf) (w1, c1) = Some (w', c')"
    by blast
  from assessLoop_thread [OF th1] obtain w2 c2 evs where
    s2: "assessLoop ?A ?t conf w1 c1 = (w2, c2, evs)"
    and th2: "threadSteps (map (\<lambda>s. (?t, s)) ?T @ []) (Some conf) (w2, c2) = Some (w', c')"
    by blast
  from stepLoop_thread [OF th2] have s3: "stepLoop ?T ?t (Some conf) w2 c2 = (w', c', True)"
    by auto
  from assessLoop_events [of ?A ?t conf w1 c1] s2
  have ev: "evs = concat (map (assessScope ?ex ?t) ?A)" by simp
  from assms(1,2) s1 s2 s3 ev show "execFeature e c t f w =
                (w', [Enter ?t] @ concat (map (assessScope ?ex ?t) ?A) @ [Leave ?t], Returns c')"
    by (simp add: execFeature_def GetStepsByLevel_def Let_def)
qed

theorem execFeature_levels_in_order_witness:
  "cfg envAssessFiltered = Some assessConf \<and>
   \<not> notMatched (FeatureRegex assessConf) (featureName featureMixed) \<and>
   execFeature envAssessFiltered (Some Background) [''TestX''] featureMixed 0 =
     (4, [Enter [''TestX'', ''F''],
          Enter [''TestX'', ''F'', ''check''],
          Skipf [''TestX'', ''F'', ''check''] (skipAssessmentMsg ''check''),
          Leave [''TestX'', ''F'', ''check''],
          Enter [''TestX'', ''F'', ''other''], Leave [''TestX'', ''F'', ''other''],
          Enter [''TestX'', ''F'', ''other''], Leave [''TestX'', ''F'', ''other''],
          Leave [''TestX'', ''F'']],
      Returns (Some (WithValue 2))) \<and>
   cfg envPlain = Some plainConf \<and>
   \<not> notMatched (FeatureRegex plainConf) (featureName featureF) \<and>
   threadSteps
     (levelPlan (notMatched (AssessmentRegex plainConf)) ([''TestX''] @ [featureName featureF])
        (featureSteps featureF))
     (cfg envPlain) (0, Some Background) = Some (3, Some Background) \<and>
   execFeature envPlain (Some Background) [''TestX''] featureF 0 =
     (3, [Enter [''TestX'', ''F''], Enter [''TestX'', ''F'', ''check''],
          Leave [''TestX'', ''F'', ''check''], Leave [''TestX'', ''F'']],
      Returns (Some Background))"
proof -
  have k: "cfg envAssessFiltered = Some assessConf"
    by (simp add: filter_ex_defs test_ex_defs env_defs)
  have m: "\<not> notMatched (FeatureRegex assessConf) (featureName featureMixed)"
    by (simp add: notMatched_def filter_ex_defs stop_ex_defs)
  have v: "levelsInOrder (notMatched (AssessmentRegex assessConf))
      ([''TestX''] @ [featureName featureMixed]) (cfg envAssessFiltered)
      (featureSteps featureMixed) 0 (Some Background) =
     (4, [Enter [''TestX'', ''F''],
          Enter [''TestX'', ''F'', ''check''],
          Skipf [''TestX'', ''F'', ''check''] (skipAssessmentMsg ''check''),
          Leave [''TestX'', ''F'', ''check''],
          Enter [''TestX'', ''F'', ''other''], Leave [''TestX'', ''F'', ''other''],
          Enter [''TestX'', ''F'', ''other''], Leave [''TestX'', ''F'', ''other''],
          Leave [''TestX'', ''F'']],
      Returns (Some (WithValue 2)))"
    by (simp add: levels_defs filter_ex_defs stop_ex_defs test_ex_defs env_defs)
  have k': "cfg envPlain = Some plainConf" by (simp add: stop_ex_defs env_defs)
  have m': "\<not> notMatched (FeatureRegex plainConf) (featureName featureF)"
    by (simp add: notMatched_def plainConf_def)
  have p: "threadSteps
     (levelPlan (notMatched (AssessmentRegex plainConf)) ([''TestX''] @ [featureName featureF])
        (featureSteps featureF))
     (cfg envPlain) (0, Some Background) = Some (3, Some Background)"
    by (simp add: levelPlan_def notMatched_def stop_ex_defs test_ex_defs env_defs)
  have sc: "concat (map (assessScope (notMatched (AssessmentRegex plainConf))
                ([''TestX''] @ [featureName featureF]))
            (filter (\<lambda>s. stepLevel s = LevelAssess) (featureSteps featureF))) =
     [Enter [''TestX'', ''F'', ''check''], Leave [''TestX'', ''F'', ''check'']]"
    by (simp add: assessScope_def notMatched_def test_ex_defs plainConf_def)
  have n: "featureName featureF = ''F''" by (simp add: featureF_def)
  from execFeature_levels_in_order [OF k m, THEN conjunct1, of "Some Background" "[''TestX'']" 0]
    execFeature_levels_in_order [OF k' m', THEN conjunct2, rule_format, OF p]
    k m v k' m' p sc n
  show ?thesis by simp
qed

text \<open>
  C1 as it was stated, for every feature, fails on five inputs. With a feature filter
  that does not match, no step is executed, although the three steps of the feature,
  executed in order, take the counter from 0 to 3. With an assessment filter that does
  not match, the assessment is not executed and the counter ends at 2. When the
  Setup-level step stops the feature's scope, no scope is opened for the assessment and
  the Teardown-level step is not executed: the counter ends at 1. When the first of two
  Teardown-level steps stops the scope, the second is not executed: the counter ends at 3.
  And in an environment with the nil configuration the call panics before any step.
\<close>

theorem execFeature_runs_all_steps_counterexample:
  "threadSteps (levelPlan (notMatched None) [''TestX'', ''F''] (featureSteps featureF))
     (cfg envFeatureFiltered) (0, Some Background) = Some (3, Some Background) \<and>
   execFeature envFeatureFiltered (Some Background) [''TestX''] featureF 0 =
     (0, [Enter [''TestX'', ''F''], Skipf [''TestX'', ''F''] (skipFeatureMsg ''F''),
          Leave [''TestX'', ''F'']], Returns (Some Background)) \<and>
   threadSteps (levelPlan (notMatched None) [''TestX'', ''F''] (featureSteps featureF))
     (cfg envAssessFiltered) (0, Some Background) = Some (3, Some Background) \<and>
   execFeature envAssessFiltered (Some Background) [''TestX''] featureF 0 =
     (2, [Enter [''TestX'', ''F''], Enter [''TestX'', ''F'', ''check''],
          Skipf [''TestX'', ''F'', ''check''] (skipAssessmentMsg ''check''),
          Leave [''TestX'', ''F'', ''check''], Leave [''TestX'', ''F'']],
      Returns (Some Background)) \<and>
   GetStepsByLevel (featureSteps featureStopping) LevelAssess = [checkStep] \<and>
   GetStepsByLevel (featureSteps featureStopping) LevelTeardown =
     [\<lparr>stepLevel = LevelTeardown, stepName = ''clean'', stepFunc = stepTick\<rparr>] \<and>
   execFeature envPlain (Some Background) [''TestX''] featureStopping 0 =
     (1, [Enter [''TestX'', ''F''], Leave [''TestX'', ''F'']], Returns (Some Background)) \<and>
   GetStepsByLevel (featureSteps featureStoppingTeardown) LevelTeardown =
     [\<lparr>stepLevel = LevelTeardown, stepName = ''release'', stepFunc = stepStop\<rparr>,
      \<lparr>stepLevel = LevelTeardown, stepName = ''clean'', stepFunc = stepTick\<rparr>] \<and>
   execFeature envPlain (Some Background) [''TestX''] featureStoppingTeardown 0 =
     (3, [Enter [''TestX'', ''F''], Enter [''TestX'', ''F'', ''check''],
          Leave [''TestX'', ''F'', ''check''], Leave [''TestX'', ''F'']],
      Returns (Some Background)) \<and>
   cfg envNoConf = None \<and>
   execFeature envNoConf (Some Background) [''TestX''] featureF 0 =
     (0, [Enter [''TestX'', ''F'']], Panic ''nil pointer dereference'')"
  by (simp add: levelPlan_def exec_defs filter_ex_defs test_ex_defs env_defs stop_ex_defs)

section \<open>The name filters\<close>



section \<open>A feature that is filtered out\<close>

text \<open>
  C10. When a configured feature filter does not match the feature's name, \<open>execFeature\<close>
  returns the context it was given and leaves the world as it was: no step is applied.
  In \<open>Test\<close> the After actions then start on the world and the context the Before actions
  produced.
\<close>

theorem feature_filtered_out_keeps_context:
  assumes "cfg e = Some conf"
    and "FeatureRegex conf = Some re"
    and "\<not> re (featureName f)"
  shows "execFeature e c t f w =
           (w, [Enter (t @ [featureName f]),
                Skipf (t @ [featureName f]) (skipFeatureMsg (featureName f)),
                Leave (t @ [featureName f])], Returns c)
       \<and> (ctx e \<noteq> None \<and>
          threadActions (GetBeforeActions e) (cfg e) (w, ctx e) = Some (w1, c1)
          \<longrightarrow> Test e t f w =
                (case failFastLoop (GetAfterActions e) w1 (e\<lparr>ctx := c1\<rparr>) of
                   (w3, e3, r) \<Rightarrow>
                     (w3, e3,
                      [Enter (t @ [featureName f]),
                       Skipf (t @ [featureName f]) (skipFeatureMsg (featureName f)),
                       Leave (t @ [featureName f])] @
                      (case r of
                         None \<Rightarrow> []
                       | Some err \<Rightarrow> [Fatalf t (afterFailureMsg (featureName f) err)]),
                      (case r of None \<Rightarrow> Returns () | Some err \<Rightarrow> Goexit))))"
proof -
  have skip: "\<And>e' c' w'. cfg e' = Some conf \<Longrightarrow> execFeature e' c' t f w' =
           (w', [Enter (t @ [featureName f]),
                Skipf (t @ [featureName f]) (skipFeatureMsg (featureName f)),
                Leave (t @ [featureName f])], Returns c')"
    using assms(2,3) by (simp add: execFeature_def notMatched_def Let_def)
  show ?thesis
  proof (intro conjI impI)
    show "execFeature e c t f w =
           (w, [Enter (t @ [featureName f]),
                Skipf (t @ [featureName f]) (skipFeatureMsg (featureName f)),
                Leave (t @ [featureName f])], Returns c)"
      using assms(1) by (rule skip)
  next
    assume h: "ctx e \<noteq> None \<and>
          threadActions (GetBeforeActions e) (cfg e) (w, ctx e) = Some (w1, c1)"
    then have bf: "failFastLoop (GetBeforeActions e) w e = (w1, e\<lparr>ctx := c1\<rparr>, None)"
      by (simp add: failFastLoop_thread)
    have ef: "execFeature (e\<lparr>ctx := c1\<rparr>) (ctx (e\<lparr>ctx := c1\<rparr>)) t f w1 =
           (w1, [Enter (t @ [featureName f]),
                Skipf (t @ [featureName f]) (skipFeatureMsg (featureName f)),
                Leave (t @ [featureName f])], Returns (ctx (e\<lparr>ctx := c1\<rparr>)))"
      using assms(1) by (intro skip) simp
    have ga: "GetAfterActions (e\<lparr>ctx := c1\<rparr>) = GetAfterActions e"
      by (simp add: GetAfterActions_def getActionsByRole_ctx_update)
    obtain w3 e3 r where af: "failFastLoop (GetAfterActions e) w1 (e\<lparr>ctx := c1\<rparr>) = (w3, e3, r)"
      by (cases "failFastLoop (GetAfterActions e) w1 (e\<lparr>ctx := c1\<rparr>)") auto
    from h bf ef ga af show "Test e t f w =
                (case failFastLoop (GetAfterActions e) w1 (e\<lparr>ctx := c1\<rparr>) of
                   (w3, e3, r) \<Rightarrow>
                     (w3, e3,
                      [Enter (t @ [featureName f]),
                       Skipf (t @ [featureName f]) (skipFeatureMsg (featureName f)),
                       Leave (t @ [featureName f])] @
                      (case r of
                         None \<Rightarrow> []
                       | Some err \<Rightarrow> [Fatalf t (afterFailureMsg (featureName f) err)]),
                      (case r of None \<Rightarrow> Returns () | Some err \<Rightarrow> Goexit)))"
      by (cases r) (auto simp add: Test_def Let_def)
  qed
qed

theorem feature_filtered_out_keeps_context_witness:
  "cfg envFiltered = Some filterConf \<and>
   FeatureRegex filterConf = Some (\<lambda>n. n = ''G'') \<and> \<not> featureName featureF = ''G'' \<and>
   ctx envFiltered \<noteq> None \<and>
   threadActions (GetBeforeActions envFiltered) (cfg envFiltered) (0, ctx envFiltered) =
     Some (1, Some Background) \<and>
   execFeature envFiltered (Some Background) [''TestX''] featureF 1 =
     (1, [Enter [''TestX'', ''F''], Skipf [''TestX'', ''F''] (skipFeatureMsg ''F''),
          Leave [''TestX'', ''F'']], Returns (Some Background)) \<and>
   Test envFiltered [''TestX''] featureF 0 =
     (2, envFiltered,
      [Enter [''TestX'', ''F''], Skipf [''TestX'', ''F''] (skipFeatureMsg ''F''),
       Leave [''TestX'', ''F'']], Returns ())"
proof -
  have k: "cfg envFiltered = Some filterConf" by (simp add: test_ex_defs env_defs)
  have fr: "FeatureRegex filterConf = Some (\<lambda>n. n = ''G'')" by (simp add: test_ex_defs)
  have nm: "\<not> featureName featureF = ''G''" by (simp add: test_ex_defs)
  have c: "ctx envFiltered \<noteq> None" by (simp add: test_ex_defs env_defs)
  have t: "threadActions (GetBeforeActions envFiltered) (cfg envFiltered) (0, ctx envFiltered) =
     Some (1, Some Background)" by (simp add: test_ex_defs env_defs)
  have a: "failFastLoop (GetAfterActions envFiltered) 1 (envFiltered\<lparr>ctx := Some Background\<rparr>) =
     (2, envFiltered, None)" by (simp add: test_ex_defs env_defs)
  have n: "featureName featureF = ''F''" by (simp add: test_ex_defs)
  from feature_filtered_out_keeps_context [OF k fr nm, THEN conjunct1, of "Some Background" "[''TestX'']" 1]
    feature_filtered_out_keeps_context [OF k fr nm, THEN conjunct2, rule_format, OF conjI [OF c t],
      of "[''TestX'']"]
    k fr nm c t a n
  show ?thesis by simp
qed

end
